theory Spec2Isabelle
  imports Main "HOL-Library.Word"
begin

section \<open>JavaScript strings and errors\<close>

text \<open>
  A JavaScript string is a sequence of UTF-16 code units; \<open>length\<close>, \<open>startsWith\<close>,
  \<open>includes\<close> and the regular expressions of the sources all work on code units.
  A literal of the source is written \<open>js ''...''\<close>.
\<close>

type_synonym jschar = "16 word"
type_synonym jsstring = "jschar list"

abbreviation js :: "string \<Rightarrow> jsstring" where
  "js s \<equiv> map of_char s"

text \<open>
  Values thrown by the sources and by the built-ins they call. \<open>APIError\<close> is the class
  of \<open>src/lib/api.ts\<close>; its \<open>status\<close> is absent when the request never got an
  HTTP response.
\<close>

datatype error =
    Error (message: jsstring)
  | TypeError (message: jsstring)
  | SyntaxError (message: jsstring)
  | URIError (message: jsstring)
  | APIError (message: jsstring) (status: "nat option")

subsection \<open>String operations of the language\<close>

definition startsWith :: "jsstring \<Rightarrow> jsstring \<Rightarrow> bool" where
  "startsWith s p = (take (length p) s = p)"

text \<open>\<open>s.includes(p)\<close>: \<open>p\<close> occurs in \<open>s\<close> as a contiguous run of code units.\<close>

fun str_includes :: "jsstring \<Rightarrow> jsstring \<Rightarrow> bool" where
  "str_includes [] p = (p = [])"
| "str_includes (c # cs) p = (startsWith (c # cs) p \<or> str_includes cs p)"

fun join :: "jsstring \<Rightarrow> jsstring list \<Rightarrow> jsstring" where
  "join sep [] = []"
| "join sep [x] = x"
| "join sep (x # y # ys) = x @ sep @ join sep (y # ys)"

text \<open>
  White space and line terminators of ECMAScript: what \<open>trim\<close> removes at both ends and
  what \<open>\s\<close> matches in a regular expression.
\<close>

definition isWhiteSpace :: "jschar \<Rightarrow> bool" where
  "isWhiteSpace c =
     (c = 0x9 \<or> c = 0xA \<or> c = 0xB \<or> c = 0xC \<or> c = 0xD \<or> c = 0x20 \<or> c = 0xA0
      \<or> c = 0x1680 \<or> (0x2000 \<le> c \<and> c \<le> 0x200A) \<or> c = 0x2028 \<or> c = 0x2029
      \<or> c = 0x202F \<or> c = 0x205F \<or> c = 0x3000 \<or> c = 0xFEFF)"

definition trim :: "jsstring \<Rightarrow> jsstring" where
  "trim s = rev (dropWhile isWhiteSpace (rev (dropWhile isWhiteSpace s)))"

text \<open>A range \<open>lo-hi\<close> of a character class, and the classes the sources spell out.\<close>

definition between :: "char \<Rightarrow> char \<Rightarrow> jschar \<Rightarrow> bool" where
  "between lo hi c = (of_char lo \<le> c \<and> c \<le> of_char hi)"

definition isDigit :: "jschar \<Rightarrow> bool" where
  "isDigit c = between CHR ''0'' CHR ''9'' c"

definition isAlnum :: "jschar \<Rightarrow> bool" where
  "isAlnum c = (between CHR ''A'' CHR ''Z'' c \<or> between CHR ''a'' CHR ''z'' c \<or> isDigit c)"

text \<open>The decimal text of a non-negative integer, as a template literal prints it.\<close>

function toString :: "nat \<Rightarrow> jsstring" where
  "toString n =
     (if n < 10 then [of_nat (48 + n)]
      else toString (n div 10) @ [of_nat (48 + n mod 10)])"
  by pat_completeness auto
termination
  by (relation "measure (\<lambda>n. n)") auto

declare toString.simps [simp del]

subsection \<open>\<open>encodeURIComponent\<close>\<close>

text \<open>
  The built-in leaves letters, digits and \<open>- _ . ! ~ * ' ( )\<close> alone and writes every other
  code point as the \<open>%XX\<close> of its UTF-8 octets. A surrogate code unit that is not part of
  a pair has no code point: the built-in throws \<open>URIError\<close>.
\<close>

definition uriUnescaped :: "jschar \<Rightarrow> bool" where
  "uriUnescaped c = (isAlnum c \<or> c \<in> set (js ''-_.!~*()'') \<or> c = 0x27)"

definition hexDigit :: "nat \<Rightarrow> jschar" where
  "hexDigit n = (if n < 10 then of_nat (48 + n) else of_nat (55 + n))"

definition percent :: "nat \<Rightarrow> jsstring" where
  "percent octet = [of_char CHR ''%'', hexDigit (octet div 16), hexDigit (octet mod 16)]"

definition utf8 :: "nat \<Rightarrow> nat list" where
  "utf8 cp =
     (if cp < 0x80 then [cp]
      else if cp < 0x800 then [0xC0 + cp div 64, 0x80 + cp mod 64]
      else if cp < 0x10000 then [0xE0 + cp div 4096, 0x80 + (cp div 64) mod 64, 0x80 + cp mod 64]
      else [0xF0 + cp div 262144, 0x80 + (cp div 4096) mod 64, 0x80 + (cp div 64) mod 64,
            0x80 + cp mod 64])"

definition percentEncode :: "nat \<Rightarrow> jsstring" where
  "percentEncode cp = concat (map percent (utf8 cp))"

definition isLeadSurrogate :: "jschar \<Rightarrow> bool" where
  "isLeadSurrogate c = (0xD800 \<le> c \<and> c \<le> 0xDBFF)"

definition isTrailSurrogate :: "jschar \<Rightarrow> bool" where
  "isTrailSurrogate c = (0xDC00 \<le> c \<and> c \<le> 0xDFFF)"

fun encodeURIComponent :: "jsstring \<Rightarrow> error + jsstring" where
  "encodeURIComponent [] = Inr []"
| "encodeURIComponent (c # cs) =
     (if uriUnescaped c then
        (case encodeURIComponent cs of Inl e \<Rightarrow> Inl e | Inr r \<Rightarrow> Inr (c # r))
      else if isTrailSurrogate c then Inl (URIError (js ''URI malformed''))
      else if isLeadSurrogate c then
        (case cs of
           [] \<Rightarrow> Inl (URIError (js ''URI malformed''))
         | d # ds \<Rightarrow>
             if isTrailSurrogate d then
               (case encodeURIComponent ds of
                  Inl e \<Rightarrow> Inl e
                | Inr r \<Rightarrow>
                    Inr (percentEncode
                          (0x10000 + (unat c - 0xD800) * 0x400 + (unat d - 0xDC00)) @ r))
             else Inl (URIError (js ''URI malformed'')))
      else
        (case encodeURIComponent cs of
           Inl e \<Rightarrow> Inl e
         | Inr r \<Rightarrow> Inr (percentEncode (unat c) @ r)))"


section \<open>Content identifiers and gateway URLs (\<open>utils\<close> of \<open>src/lib/api.ts\<close>)\<close>

subsection \<open>\<open>extractCID\<close>\<close>

text \<open>\<open>.replace(/^(ipfs:\/\/|https?:\/\/)/, '')\<close>\<close>

definition stripScheme :: "jsstring \<Rightarrow> jsstring" where
  "stripScheme s =
     (if startsWith s (js ''ipfs://'') then drop 7 s
      else if startsWith s (js ''https://'') then drop 8 s
      else if startsWith s (js ''http://'') then drop 7 s
      else s)"

text \<open>
  \<open>.replace(/\.ipfs\.[^\/]+/, '')\<close>: the leftmost place where \<open>.ipfs.\<close> is followed by a
  code unit other than \<open>/\<close> is cut out, with all that follows it up to the next \<open>/\<close>.
\<close>

definition slash :: jschar where
  "slash = of_char CHR ''/''"

definition gatewayMatch :: "jsstring \<Rightarrow> bool" where
  "gatewayMatch s =
     (startsWith s (js ''.ipfs.'') \<and> (case drop 6 s of [] \<Rightarrow> False | d # ds \<Rightarrow> d \<noteq> slash))"

fun stripGateway :: "jsstring \<Rightarrow> jsstring" where
  "stripGateway [] = []"
| "stripGateway (c # cs) =
     (if gatewayMatch (c # cs) then dropWhile (\<lambda>x. x \<noteq> slash) (drop 6 (c # cs))
      else c # stripGateway cs)"

text \<open>\<open>.replace(/^\/ipfs\//, '')\<close>\<close>

definition stripIpfsPath :: "jsstring \<Rightarrow> jsstring" where
  "stripIpfsPath s = (if startsWith s (js ''/ipfs/'') then drop 6 s else s)"

text \<open>\<open>.split('/')[0]\<close>\<close>

definition firstSegment :: "jsstring \<Rightarrow> jsstring" where
  "firstSegment s = takeWhile (\<lambda>x. x \<noteq> slash) s"

definition extractCID :: "jsstring \<Rightarrow> jsstring" where
  "extractCID input =
     (if input = [] then []
      else firstSegment (stripIpfsPath (stripGateway (stripScheme input))))"

subsection \<open>\<open>isValidCID\<close>\<close>

text \<open>The character classes of its regular expressions.\<close>

definition isBase58 :: "jschar \<Rightarrow> bool" where
  "isBase58 c =
     (between CHR ''1'' CHR ''9'' c \<or> between CHR ''A'' CHR ''H'' c
      \<or> between CHR ''J'' CHR ''N'' c \<or> between CHR ''P'' CHR ''Z'' c
      \<or> between CHR ''a'' CHR ''k'' c \<or> between CHR ''m'' CHR ''z'' c)"

definition isBase32 :: "jschar \<Rightarrow> bool" where
  "isBase32 c = (between CHR ''a'' CHR ''z'' c \<or> between CHR ''2'' CHR ''7'' c)"

definition isHexLower :: "jschar \<Rightarrow> bool" where
  "isHexLower c = (isDigit c \<or> between CHR ''a'' CHR ''f'' c)"

definition isBase36 :: "jschar \<Rightarrow> bool" where
  "isBase36 c = (isDigit c \<or> between CHR ''a'' CHR ''z'' c)"

definition isBase64Body :: "jschar \<Rightarrow> bool" where
  "isBase64Body c = (isAlnum c \<or> c = of_char CHR ''+'' \<or> c = slash)"

definition isGeneric :: "jschar \<Rightarrow> bool" where
  "isGeneric c = (isAlnum c \<or> c = of_char CHR ''_'' \<or> c = of_char CHR ''-''
      \<or> c = of_char CHR ''.'')"

text \<open>\<open>/^x[class]+$/\<close> for a one-unit prefix \<open>x\<close> that the caller has already checked.\<close>

definition restAll :: "(jschar \<Rightarrow> bool) \<Rightarrow> jsstring \<Rightarrow> bool" where
  "restAll cls s = (tl s \<noteq> [] \<and> list_all cls (tl s))"

text \<open>\<open>/^[mM][A-Za-z0-9+/]+={0,2}$/\<close>, the prefix checked by the caller.\<close>

definition base64Form :: "jsstring \<Rightarrow> bool" where
  "base64Form s =
     (let body = takeWhile isBase64Body (tl s); pad = dropWhile isBase64Body (tl s)
      in body \<noteq> [] \<and> (pad = [] \<or> pad = js ''='' \<or> pad = js ''==''))"

definition commonPrefixes :: "jschar list" where
  "commonPrefixes = js ''kKhH9''"

definition isValidCID :: "jsstring \<Rightarrow> bool" where
  "isValidCID cid =
     (if cid = [] then False
      else let cleanCID = extractCID cid in
        if cleanCID = [] then False
        else if startsWith cleanCID (js ''Qm'') \<and> length cleanCID = 46 then
          list_all isBase58 (drop 2 cleanCID)
        else if startsWith cleanCID (js ''b'') then
          restAll isBase32 cleanCID \<and> length cleanCID \<ge> 59
        else if startsWith cleanCID (js ''z'') then
          restAll isBase58 cleanCID \<and> length cleanCID \<ge> 46
        else if startsWith cleanCID (js ''f'') then restAll isHexLower cleanCID
        else if startsWith cleanCID (js ''v'') then restAll isBase36 cleanCID
        else if startsWith cleanCID (js ''t'') then restAll isDigit cleanCID
        else if startsWith cleanCID (js ''m'') \<or> startsWith cleanCID (js ''M'') then
          base64Form cleanCID
        else if hd cleanCID \<in> set commonPrefixes then length cleanCID > 30
        else if length cleanCID < 30 then False
        else list_all isGeneric cleanCID)"

subsection \<open>\<open>createGatewayURL\<close> and \<open>createGatewayURLs\<close>\<close>

text \<open>\<open>filename.replace(/^\//, '')\<close>\<close>

definition stripLeadingSlash :: "jsstring \<Rightarrow> jsstring" where
  "stripLeadingSlash filename =
     (case filename of [] \<Rightarrow> [] | c # cs \<Rightarrow> if c = slash then cs else filename)"

text \<open>
  The part both builders append for the optional file name: nothing when the argument is
  absent or the empty string (\<open>if (filename)\<close>), else \<open>/\<close> and the encoded name.
\<close>

definition fileSuffix :: "jsstring option \<Rightarrow> error + jsstring" where
  "fileSuffix filename =
     (case filename of
        None \<Rightarrow> Inr []
      | Some f \<Rightarrow>
          if f = [] then Inr []
          else (case encodeURIComponent (stripLeadingSlash f) of
                  Inl e \<Rightarrow> Inl e
                | Inr enc \<Rightarrow> Inr (js ''/'' @ enc)))"

definition createGatewayURL :: "jsstring \<Rightarrow> jsstring option \<Rightarrow> jsstring \<Rightarrow> error + jsstring" where
  "createGatewayURL cid filename gateway =
     (let cleanCID = extractCID cid in
      if \<not> isValidCID cleanCID then Inl (Error (js ''Invalid CID: '' @ cid))
      else
        (let url = js ''https://'' @ cleanCID @ js ''.ipfs.'' @ gateway in
         case fileSuffix filename of
           Inl e \<Rightarrow> Inl e
         | Inr suffix \<Rightarrow> Inr (url @ suffix)))"

text \<open>The default of the third parameter.\<close>

definition defaultGateway :: jsstring where
  "defaultGateway = js ''dweb.link''"

definition gateways :: "jsstring list" where
  "gateways = [js ''dweb.link'', js ''w3s.link'', js ''ipfs.io'', js ''cloudflare-ipfs.com'',
               js ''gateway.pinata.cloud'']"

text \<open>
  \<open>gateways.map(...)\<close>: the callback runs on the gateways in order, and an exception of
  one call ends the whole \<open>map\<close>.
\<close>

fun mapGateways :: "jsstring \<Rightarrow> jsstring option \<Rightarrow> jsstring list \<Rightarrow> error + jsstring list" where
  "mapGateways cleanCID filename [] = Inr []"
| "mapGateways cleanCID filename (gateway # rest) =
     (let url = js ''https://'' @ cleanCID @ js ''.ipfs.'' @ gateway in
      case fileSuffix filename of
        Inl e \<Rightarrow> Inl e
      | Inr suffix \<Rightarrow>
          (case mapGateways cleanCID filename rest of
             Inl e \<Rightarrow> Inl e
           | Inr urls \<Rightarrow> Inr ((url @ suffix) # urls)))"

definition createGatewayURLs :: "jsstring \<Rightarrow> jsstring option \<Rightarrow> error + jsstring list" where
  "createGatewayURLs cid filename =
     (let cleanCID = extractCID cid in
      if \<not> isValidCID cleanCID then Inr []
      else mapGateways cleanCID filename gateways)"


section \<open>Fetching a delegation with retries (\<open>StorachaAPI\<close> of \<open>src/lib/api.ts\<close>)\<close>

subsection \<open>The network, as \<open>request\<close> sees it\<close>

text \<open>
  What \<open>response.json()\<close> resolves with: \<open>null\<close>, or a value \<open>data\<close>. Of a value the
  model keeps what \<open>request\<close> reads: \<open>data.error\<close>, present when it is truthy (with its
  text, as the constructor of \<open>Error\<close> converts it), and the rest as the payload.
\<close>

datatype 'r json = JNull | JValue (error_field: "jsstring option") (payload: 'r)

text \<open>
  The body of a response: \<open>response.json()\<close> rejects on a body that is not JSON (an HTML
  error page, an empty body); \<open>NotJSON\<close> holds the message of that error.
\<close>

datatype 'r body = NotJSON jsstring | JSON "'r json"

record 'r response =
  resp_status :: nat
  resp_statusText :: jsstring
  resp_body :: "'r body"

text \<open>\<open>response.ok\<close>: the status is in the range 200-299.\<close>

definition response_ok :: "'r response \<Rightarrow> bool" where
  "response_ok response = (200 \<le> resp_status response \<and> resp_status response \<le> 299)"

text \<open>
  One call of \<open>fetch\<close>: the promise rejects when no response arrives (with an \<open>Error\<close>
  and its message, or with a value that is not an \<open>Error\<close>), and resolves with the
  response otherwise, whatever its status.
\<close>

datatype 'r fetched = Rejected "jsstring option" | Resolved "'r response"

text \<open>What a run does that can be observed from outside: it sleeps and it calls \<open>fetch\<close>.\<close>

datatype event = Sleep nat | Fetch jsstring

subsection \<open>\<open>request\<close> and \<open>getDelegation\<close>\<close>

text \<open>
  \<open>request\<close> reads the body before it looks at \<open>response.ok\<close>. Whatever is thrown inside
  its \<open>try\<close> block and is not an \<open>APIError\<close> is rethrown as an \<open>APIError\<close> without status:
  the rejection of \<open>fetch\<close>, the rejection of \<open>response.json()\<close>, and the \<open>TypeError\<close> of
  \<open>data.error\<close> on \<open>null\<close> (whose message is the engine's; the model writes V8's).
  The headers of the call do not enter any result and are left out.
\<close>

definition httpMessage :: "'r response \<Rightarrow> jsstring" where
  "httpMessage response =
     js ''HTTP '' @ toString (resp_status response) @ js '': '' @ resp_statusText response"

definition requestOutcome :: "'r fetched \<Rightarrow> error + 'r json" where
  "requestOutcome fetched =
     (case fetched of
        Rejected None \<Rightarrow> Inl (APIError (js ''Network request failed'') None)
      | Rejected (Some m) \<Rightarrow> Inl (APIError m None)
      | Resolved response \<Rightarrow>
          (case resp_body response of
             NotJSON m \<Rightarrow> Inl (APIError m None)
           | JSON data \<Rightarrow>
               if \<not> response_ok response then
                 (case data of
                    JNull \<Rightarrow>
                      Inl (APIError (js ''Cannot read properties of null (reading 'error')'') None)
                  | JValue err p \<Rightarrow>
                      Inl (APIError (case err of Some m \<Rightarrow> m | None \<Rightarrow> httpMessage response)
                             (Some (resp_status response))))
               else Inr data))"

definition request ::
  "(jsstring \<Rightarrow> 'r fetched) \<Rightarrow> jsstring \<Rightarrow> jsstring \<Rightarrow> (error + 'r json) \<times> event list" where
  "request fetch baseURL endpoint =
     (let url = baseURL @ endpoint in (requestOutcome (fetch url), [Fetch url]))"

text \<open>
  \<open>getDelegation\<close> builds the endpoint first: a DID with an unpaired surrogate makes
  \<open>encodeURIComponent\<close> throw, and then \<open>fetch\<close> is not called.
\<close>

definition getDelegation ::
  "(jsstring \<Rightarrow> 'r fetched) \<Rightarrow> jsstring \<Rightarrow> jsstring \<Rightarrow> (error + 'r json) \<times> event list" where
  "getDelegation fetch baseURL did =
     (case encodeURIComponent did of
        Inl e \<Rightarrow> (Inl e, [])
      | Inr encoded \<Rightarrow> request fetch baseURL (js ''/api/delegation/'' @ encoded))"

subsection \<open>\<open>getDelegationWithRetry\<close>\<close>

text \<open>The two \<open>throw error\<close> statements of the catch block: status 400, then 401 or 403.\<close>

fun no_retry :: "error \<Rightarrow> bool" where
  "no_retry (APIError m st) =
     (if st = Some 400 then True
      else if st = Some 401 \<or> st = Some 403 then True
      else False)"
| "no_retry _ = False"

text \<open>
  The loop. \<open>net\<close> is the network during the run: \<open>net attempt\<close> is how \<open>fetch\<close> answers
  in that attempt.
\<close>

function retry_loop ::
  "(nat \<Rightarrow> jsstring \<Rightarrow> 'r fetched) \<Rightarrow> jsstring \<Rightarrow> jsstring \<Rightarrow> nat \<Rightarrow> nat \<Rightarrow> nat \<Rightarrow> error option
     \<Rightarrow> event list \<Rightarrow> (error + 'r json) \<times> event list" where
  "retry_loop net baseURL did maxRetries delay attempt lastError tr =
     (if attempt < maxRetries then
        (let tr1 = (if attempt > 0 then tr @ [Sleep (delay * 2 ^ (attempt - 1))] else tr);
             (out, evs) = getDelegation (net attempt) baseURL did;
             tr2 = tr1 @ evs
         in case out of
              Inr response \<Rightarrow> (Inr response, tr2)
            | Inl err \<Rightarrow>
                if no_retry err then (Inl err, tr2)
                else if attempt = maxRetries - 1 then (Inl err, tr2)
                else retry_loop net baseURL did maxRetries delay (attempt + 1) (Some err) tr2)
      else
        (Inl (case lastError of
                Some err \<Rightarrow> err
              | None \<Rightarrow> Error (js ''Failed to get delegation after retries'')), tr))"
  by pat_completeness auto
termination
  by (relation "measure (\<lambda>(n, b, d, maxRetries, dl, attempt, l, t). maxRetries - attempt)") auto

declare retry_loop.simps [simp del]

definition getDelegationWithRetry ::
  "(nat \<Rightarrow> jsstring \<Rightarrow> 'r fetched) \<Rightarrow> jsstring \<Rightarrow> jsstring \<Rightarrow> nat \<Rightarrow> nat
     \<Rightarrow> (error + 'r json) \<times> event list" where
  "getDelegationWithRetry net baseURL did maxRetries delay =
     retry_loop net baseURL did maxRetries delay 0 None []"

text \<open>
  The defaults of the signature, \<open>maxRetries = 3\<close> and \<open>delay = 1000\<close>, on the exported
  instance \<open>api = new StorachaAPI()\<close>, whose base URL is empty.
\<close>

definition getDelegationWithRetry_default ::
  "(nat \<Rightarrow> jsstring \<Rightarrow> 'r fetched) \<Rightarrow> jsstring \<Rightarrow> (error + 'r json) \<times> event list" where
  "getDelegationWithRetry_default net did = getDelegationWithRetry net [] did 3 1000"

subsection \<open>Vocabulary for the retry policy\<close>

text \<open>How one call of \<open>fetch\<close> ended, in the words of the policy.\<close>

definition transport_failure :: "'r fetched \<Rightarrow> bool" where
  "transport_failure f = (case f of Rejected m \<Rightarrow> True | Resolved response \<Rightarrow> False)"

definition non_4xx_error :: "'r fetched \<Rightarrow> bool" where
  "non_4xx_error f =
     (case f of
        Rejected m \<Rightarrow> False
      | Resolved response \<Rightarrow>
          \<not> response_ok response
          \<and> \<not> (400 \<le> resp_status response \<and> resp_status response \<le> 499))"

definition status_400_401_403 :: "'r fetched \<Rightarrow> bool" where
  "status_400_401_403 f =
     (case f of
        Rejected m \<Rightarrow> False
      | Resolved response \<Rightarrow>
          resp_status response = 400 \<or> resp_status response = 401
          \<or> resp_status response = 403)"

text \<open>The body is JSON and not \<open>null\<close>: what the backend of this repository always sends.\<close>

definition json_value_body :: "'r fetched \<Rightarrow> bool" where
  "json_value_body f =
     (case f of
        Rejected m \<Rightarrow> False
      | Resolved response \<Rightarrow>
          (case resp_body response of
             NotJSON m \<Rightarrow> False
           | JSON JNull \<Rightarrow> False
           | JSON (JValue err p) \<Rightarrow> True))"

definition succeeded :: "'r fetched \<Rightarrow> bool" where
  "succeeded f =
     (case f of
        Rejected m \<Rightarrow> False
      | Resolved response \<Rightarrow>
          response_ok response
          \<and> (case resp_body response of NotJSON m \<Rightarrow> False | JSON data \<Rightarrow> True))"

text \<open>A failed attempt after which the loop goes on, unless it was the last one.\<close>

definition retried_failure :: "error + 'a \<Rightarrow> bool" where
  "retried_failure out = (case out of Inl err \<Rightarrow> \<not> no_retry err | Inr r \<Rightarrow> False)"

text \<open>
  The events of attempts \<open>a, a + 1, \<dots>, k\<close> when every attempt calls \<open>fetch\<close>: a doubling
  sleep before every attempt but the first, then the call.
\<close>

definition attempt_events :: "jsstring \<Rightarrow> nat \<Rightarrow> nat \<Rightarrow> event list" where
  "attempt_events url delay a =
     (if a > 0 then [Sleep (delay * 2 ^ (a - 1))] else []) @ [Fetch url]"

definition schedule :: "jsstring \<Rightarrow> nat \<Rightarrow> nat \<Rightarrow> nat \<Rightarrow> event list" where
  "schedule url delay a k = concat (map (attempt_events url delay) [a..<Suc k])"

definition delegationURL :: "jsstring \<Rightarrow> jsstring \<Rightarrow> jsstring" where
  "delegationURL baseURL encoded = baseURL @ js ''/api/delegation/'' @ encoded"

definition fetches :: "event list \<Rightarrow> nat" where
  "fetches tr = length (filter (\<lambda>ev. case ev of Fetch url \<Rightarrow> True | Sleep d \<Rightarrow> False) tr)"

section \<open>Properties of the retrying fetch\<close>

subsection \<open>What \<open>request\<close> throws\<close>

lemma requestOutcome_transport_failure:
  "transport_failure f \<Longrightarrow> retried_failure (requestOutcome f)"
  by (auto simp: transport_failure_def requestOutcome_def retried_failure_def
      split: fetched.splits option.splits)

lemma requestOutcome_non_4xx_error:
  "non_4xx_error f \<Longrightarrow> retried_failure (requestOutcome f)"
  by (auto simp: non_4xx_error_def requestOutcome_def retried_failure_def
      split: fetched.splits option.splits body.splits json.splits)

text \<open>A 400, 401 or 403 response keeps its status when its body is a JSON value.\<close>

lemma requestOutcome_status_kept:
  assumes "status_400_401_403 f" and "json_value_body f"
  shows "\<exists>err. requestOutcome f = Inl err \<and> no_retry err"
  using assms
  by (auto simp: status_400_401_403_def json_value_body_def requestOutcome_def response_ok_def
      split: fetched.splits body.splits json.splits)

text \<open>
  Any response whose body is not JSON, whatever its status, ends as an \<open>APIError\<close>
  without status, and so does a response that is not \<open>ok\<close> and whose body is \<open>null\<close>.
\<close>

lemma requestOutcome_status_lost:
  "resp_body response = NotJSON m \<Longrightarrow>
     requestOutcome (Resolved response) = Inl (APIError m None)"
  "\<not> response_ok response \<Longrightarrow> resp_body response = JSON JNull \<Longrightarrow>
     requestOutcome (Resolved response) =
       Inl (APIError (js ''Cannot read properties of null (reading 'error')'') None)"
  by (simp_all add: requestOutcome_def)

lemma requestOutcome_succeeded:
  "succeeded f \<Longrightarrow> \<exists>data. requestOutcome f = Inr data"
  by (auto simp: succeeded_def requestOutcome_def split: fetched.splits body.splits)

lemma getDelegation_encoded:
  "encodeURIComponent did = Inr encoded \<Longrightarrow>
     getDelegation fetch baseURL did =
       (requestOutcome (fetch (delegationURL baseURL encoded)),
        [Fetch (delegationURL baseURL encoded)])"
  by (simp add: getDelegation_def request_def delegationURL_def Let_def)

subsection \<open>The schedule of a run\<close>

lemma schedule_single: "schedule url delay k k = attempt_events url delay k"
  by (simp add: schedule_def)

lemma schedule_step:
  "a < k \<Longrightarrow> schedule url delay a k = attempt_events url delay a @ schedule url delay (Suc a) k"
  by (simp add: schedule_def upt_conv_Cons)

lemma retry_loop_stops:
  assumes enc: "encodeURIComponent did = Inr encoded"
    and "k < maxRetries"
    and "\<forall>j. a \<le> j \<and> j < k \<longrightarrow>
           retried_failure (requestOutcome (net j (delegationURL baseURL encoded)))"
    and "k = maxRetries - 1
         \<or> \<not> retried_failure (requestOutcome (net k (delegationURL baseURL encoded)))"
    and "a \<le> k"
  shows "retry_loop net baseURL did maxRetries delay a lastError tr =
           (requestOutcome (net k (delegationURL baseURL encoded)),
            tr @ schedule (delegationURL baseURL encoded) delay a k)"
  using assms(2-)
proof (induction "k - a" arbitrary: a lastError tr)
  case 0
  then have ak: "a = k" by simp
  let ?u = "delegationURL baseURL encoded"
  show ?case
  proof (cases "requestOutcome (net k ?u)")
    case (Inr r)
    with 0 ak show ?thesis
      by (simp add: retry_loop.simps [of _ _ _ _ _ k] getDelegation_encoded [OF enc]
          schedule_single attempt_events_def Let_def)
  next
    case (Inl err)
    with 0 ak show ?thesis
      by (auto simp: retry_loop.simps [of _ _ _ _ _ k] getDelegation_encoded [OF enc]
          schedule_single attempt_events_def retried_failure_def Let_def)
  qed
next
  case (Suc n)
  let ?u = "delegationURL baseURL encoded"
  from Suc have lt: "a < k" by simp
  with Suc.prems have "retried_failure (requestOutcome (net a ?u))" by simp
  then obtain err where e: "requestOutcome (net a ?u) = Inl err" "\<not> no_retry err"
    by (auto simp: retried_failure_def split: sum.splits)
  have ne: "a \<noteq> maxRetries - 1" using lt Suc.prems(1) by simp
  have am: "a < maxRetries" using lt Suc.prems(1) by simp
  let ?tr2 = "tr @ attempt_events ?u delay a"
  have step: "retry_loop net baseURL did maxRetries delay a lastError tr =
      retry_loop net baseURL did maxRetries delay (Suc a) (Some err) ?tr2"
    using e ne am
    by (simp add: retry_loop.simps [of _ _ _ _ _ a] getDelegation_encoded [OF enc]
        attempt_events_def Let_def)
  have "retry_loop net baseURL did maxRetries delay (Suc a) (Some err) ?tr2 =
      (requestOutcome (net k ?u), ?tr2 @ schedule ?u delay (Suc a) k)"
  proof (rule Suc.hyps(1))
    show "n = k - Suc a" using Suc.hyps(2) by simp
    show "k < maxRetries" by (rule Suc.prems(1))
    show "\<forall>j. Suc a \<le> j \<and> j < k \<longrightarrow> retried_failure (requestOutcome (net j ?u))"
      using Suc.prems(2) by simp
    show "k = maxRetries - 1 \<or> \<not> retried_failure (requestOutcome (net k ?u))"
      by (rule Suc.prems(3))
    show "Suc a \<le> k" using lt by simp
  qed
  with step show ?case by (simp add: schedule_step [OF lt])
qed

lemma fetches_attempt_events: "fetches (attempt_events url delay a) = 1"
  by (simp add: attempt_events_def fetches_def)

lemma fetches_append: "fetches (xs @ ys) = fetches xs + fetches ys"
  by (simp add: fetches_def)

lemma fetches_schedule: "a \<le> k \<Longrightarrow> fetches (schedule url delay a k) = Suc k - a"
proof (induction "k - a" arbitrary: a)
  case 0
  then show ?case by (simp add: schedule_single fetches_attempt_events)
next
  case (Suc n)
  then have lt: "a < k" by simp
  have "fetches (schedule url delay (Suc a) k) = Suc k - Suc a"
    using Suc.hyps lt by (intro Suc.hyps(1)) simp_all
  then show ?case
    using lt by (simp add: schedule_step fetches_append fetches_attempt_events)
qed

text \<open>
  The policy where it holds. Take a DID that can be encoded and a run in which the
  attempts before attempt \<open>k\<close> all met a transport failure or an HTTP error outside
  400-499: each of them was retried. The run ends at attempt \<open>k\<close>, with the outcome of
  that attempt, as soon as the attempt succeeds, or gets a 400, 401 or 403 response
  whose body is a JSON value, or is the last allowed attempt. Its events are exactly
  \<open>fetch, sleep delay, fetch, sleep 2 * delay, fetch, \<dots>\<close>: \<open>k + 1\<close> calls, at most
  \<open>maxRetries\<close>, each retry after its sleep.
\<close>

lemma getDelegationWithRetry_policy:
  assumes "encodeURIComponent did = Inr encoded"
    and "k < maxRetries"
    and "\<forall>j<k. transport_failure (net j (delegationURL baseURL encoded))
               \<or> non_4xx_error (net j (delegationURL baseURL encoded))"
    and "k = maxRetries - 1
         \<or> status_400_401_403 (net k (delegationURL baseURL encoded))
             \<and> json_value_body (net k (delegationURL baseURL encoded))
         \<or> succeeded (net k (delegationURL baseURL encoded))"
  shows "getDelegationWithRetry net baseURL did maxRetries delay =
           (requestOutcome (net k (delegationURL baseURL encoded)),
            schedule (delegationURL baseURL encoded) delay 0 k)"
    and "fetches (snd (getDelegationWithRetry net baseURL did maxRetries delay)) = k + 1"
    and "fetches (snd (getDelegationWithRetry net baseURL did maxRetries delay)) \<le> maxRetries"
proof -
  let ?u = "delegationURL baseURL encoded"
  have before: "\<forall>j. 0 \<le> j \<and> j < k \<longrightarrow> retried_failure (requestOutcome (net j ?u))"
    using assms(3) requestOutcome_transport_failure requestOutcome_non_4xx_error by blast
  have stop: "k = maxRetries - 1 \<or> \<not> retried_failure (requestOutcome (net k ?u))"
    using assms(4) requestOutcome_status_kept [of "net k ?u"]
      requestOutcome_succeeded [of "net k ?u"]
    by (auto simp: retried_failure_def)
  show run: "getDelegationWithRetry net baseURL did maxRetries delay =
      (requestOutcome (net k ?u), schedule ?u delay 0 k)"
    unfolding getDelegationWithRetry_def
    using retry_loop_stops [of did encoded k maxRetries 0 net baseURL delay None "[]"]
      assms(1,2) before stop
    by simp
  show "fetches (snd (getDelegationWithRetry net baseURL did maxRetries delay)) = k + 1"
    by (simp add: run fetches_schedule)
  show "fetches (snd (getDelegationWithRetry net baseURL did maxRetries delay)) \<le> maxRetries"
    using assms(2) by (simp add: run fetches_schedule)
qed

subsection \<open>Sample runs\<close>

text \<open>
  Three answers of a network: a 503 and a 403 of the backend, which sends JSON, and a 403
  of a proxy in front of it, which sends an HTML page; and two networks: one that gives
  the same response to every call, one that drops the first call before it does so.
\<close>

definition unavailable_json :: "unit response" where
  "unavailable_json =
     \<lparr> resp_status = 503, resp_statusText = js ''Service Unavailable'',
       resp_body = JSON (JValue None ()) \<rparr>"

definition forbidden_json :: "unit response" where
  "forbidden_json =
     \<lparr> resp_status = 403, resp_statusText = js ''Forbidden'',
       resp_body = JSON (JValue (Some (js ''Not allowed'')) ()) \<rparr>"

definition forbidden_page :: "unit response" where
  "forbidden_page =
     \<lparr> resp_status = 403, resp_statusText = js ''Forbidden'',
       resp_body = NotJSON (js ''Unexpected token < in JSON at position 0'') \<rparr>"

definition always :: "'r response \<Rightarrow> nat \<Rightarrow> jsstring \<Rightarrow> 'r fetched" where
  "always response attempt url = Resolved response"

definition after_drop :: "'r response \<Rightarrow> nat \<Rightarrow> jsstring \<Rightarrow> 'r fetched" where
  "after_drop response attempt url =
     (if attempt = 0 then Rejected (Some (js ''Failed to fetch'')) else Resolved response)"

lemma agent_did_encoded:
  "encodeURIComponent (js ''did:key:z6MkAgent'') = Inr (js ''did%3Akey%3Az6MkAgent'')"
  by (simp add: uriUnescaped_def isAlnum_def isDigit_def between_def isTrailSurrogate_def
      isLeadSurrogate_def percentEncode_def utf8_def percent_def hexDigit_def)

lemma agent_url:
  "delegationURL [] (js ''did%3Akey%3Az6MkAgent'') = js ''/api/delegation/did%3Akey%3Az6MkAgent''"
  by (simp add: delegationURL_def)

lemma schedule_examples:
  "schedule url delay 0 0 = [Fetch url]"
  "schedule url 1000 0 1 = [Fetch url, Sleep 1000, Fetch url]"
  "schedule url 1000 0 2 = [Fetch url, Sleep 1000, Fetch url, Sleep 2000, Fetch url]"
  by (simp_all add: schedule_def attempt_events_def upt_rec)

text \<open>
  The policy on two runs with the defaults. The first call is dropped and retried after
  1000 ms. When the backend then answers 403, the run ends there: the third attempt is
  never made. When it answers 503, the third attempt follows after 2000 ms more and its
  error is thrown, with the message \<open>request\<close> builds from the status line.
\<close>

lemma getDelegationWithRetry_policy_examples:
  "getDelegationWithRetry_default (after_drop forbidden_json) (js ''did:key:z6MkAgent'') =
     (Inl (APIError (js ''Not allowed'') (Some 403)),
      [Fetch (js ''/api/delegation/did%3Akey%3Az6MkAgent''), Sleep 1000,
       Fetch (js ''/api/delegation/did%3Akey%3Az6MkAgent'')])"
  "getDelegationWithRetry_default (after_drop unavailable_json) (js ''did:key:z6MkAgent'') =
     (Inl (APIError (js ''HTTP 503: Service Unavailable'') (Some 503)),
      [Fetch (js ''/api/delegation/did%3Akey%3Az6MkAgent''), Sleep 1000,
       Fetch (js ''/api/delegation/did%3Akey%3Az6MkAgent''), Sleep 2000,
       Fetch (js ''/api/delegation/did%3Akey%3Az6MkAgent'')])"
proof -
  let ?u = "delegationURL [] (js ''did%3Akey%3Az6MkAgent'')"
  have a: "\<forall>j<1. transport_failure (after_drop forbidden_json j ?u)
      \<or> non_4xx_error (after_drop forbidden_json j ?u)"
    by (simp add: after_drop_def transport_failure_def)
  have b: "1 = (3::nat) - 1
      \<or> status_400_401_403 (after_drop forbidden_json 1 ?u)
          \<and> json_value_body (after_drop forbidden_json 1 ?u)
      \<or> succeeded (after_drop forbidden_json 1 ?u)"
    by (simp add: after_drop_def status_400_401_403_def json_value_body_def forbidden_json_def)
  have "getDelegationWithRetry (after_drop forbidden_json) [] (js ''did:key:z6MkAgent'') 3 1000 =
      (requestOutcome (after_drop forbidden_json 1 ?u), schedule ?u 1000 0 1)"
    using agent_did_encoded _ a b by (rule getDelegationWithRetry_policy(1)) simp
  then show "getDelegationWithRetry_default (after_drop forbidden_json) (js ''did:key:z6MkAgent'') =
     (Inl (APIError (js ''Not allowed'') (Some 403)),
      [Fetch (js ''/api/delegation/did%3Akey%3Az6MkAgent''), Sleep 1000,
       Fetch (js ''/api/delegation/did%3Akey%3Az6MkAgent'')])"
    unfolding getDelegationWithRetry_default_def schedule_examples agent_url
    by (simp add: after_drop_def requestOutcome_def forbidden_json_def response_ok_def)
  have c: "\<forall>j<2. transport_failure (after_drop unavailable_json j ?u)
      \<or> non_4xx_error (after_drop unavailable_json j ?u)"
    by (simp add: after_drop_def transport_failure_def non_4xx_error_def unavailable_json_def
        response_ok_def)
  have d: "2 = (3::nat) - 1
      \<or> status_400_401_403 (after_drop unavailable_json 2 ?u)
          \<and> json_value_body (after_drop unavailable_json 2 ?u)
      \<or> succeeded (after_drop unavailable_json 2 ?u)"
    by simp
  have "getDelegationWithRetry (after_drop unavailable_json) [] (js ''did:key:z6MkAgent'') 3 1000 =
      (requestOutcome (after_drop unavailable_json 2 ?u), schedule ?u 1000 0 2)"
    using agent_did_encoded _ c d by (rule getDelegationWithRetry_policy(1)) simp
  moreover have "toString 503 = js ''503''"
    by (simp add: toString.simps)
  ultimately show
    "getDelegationWithRetry_default (after_drop unavailable_json) (js ''did:key:z6MkAgent'') =
     (Inl (APIError (js ''HTTP 503: Service Unavailable'') (Some 503)),
      [Fetch (js ''/api/delegation/did%3Akey%3Az6MkAgent''), Sleep 1000,
       Fetch (js ''/api/delegation/did%3Akey%3Az6MkAgent''), Sleep 2000,
       Fetch (js ''/api/delegation/did%3Akey%3Az6MkAgent'')])"
    unfolding getDelegationWithRetry_default_def schedule_examples agent_url
    by (simp add: after_drop_def requestOutcome_def unavailable_json_def response_ok_def
        httpMessage_def)
qed

text \<open>
  C7. The claim holds of the responses this repository's backend sends, whose bodies are
  JSON, and fails where the body is not: \<open>request\<close> calls \<open>response.json()\<close> before it
  tests \<open>response.ok\<close>, so a 403 response with an HTML body is thrown as an \<open>APIError\<close>
  without status, and the loop, which looks for the status on the error, retries it. With
  the defaults the 403 is fetched three times, 1000 ms and 2000 ms apart, and what is
  thrown in the end is the parse error. The same 403 with a JSON body is thrown at once,
  after a single call.
\<close>

theorem getDelegationWithRetry_forbidden_page:
  "status_400_401_403 (always forbidden_page 0 (js ''/api/delegation/did%3Akey%3Az6MkAgent''))
   \<and> getDelegationWithRetry_default (always forbidden_page) (js ''did:key:z6MkAgent'') =
       (Inl (APIError (js ''Unexpected token < in JSON at position 0'') None),
        [Fetch (js ''/api/delegation/did%3Akey%3Az6MkAgent''), Sleep 1000,
         Fetch (js ''/api/delegation/did%3Akey%3Az6MkAgent''), Sleep 2000,
         Fetch (js ''/api/delegation/did%3Akey%3Az6MkAgent'')])
   \<and> getDelegationWithRetry_default (always forbidden_json) (js ''did:key:z6MkAgent'') =
       (Inl (APIError (js ''Not allowed'') (Some 403)),
        [Fetch (js ''/api/delegation/did%3Akey%3Az6MkAgent'')])"
proof -
  let ?u = "delegationURL [] (js ''did%3Akey%3Az6MkAgent'')"
  have page: "requestOutcome (always forbidden_page j u) =
      Inl (APIError (js ''Unexpected token < in JSON at position 0'') None)" for j u
    by (simp add: always_def forbidden_page_def requestOutcome_def)
  have json: "requestOutcome (always forbidden_json j u) =
      Inl (APIError (js ''Not allowed'') (Some 403))" for j u
    by (simp add: always_def forbidden_json_def requestOutcome_def response_ok_def)
  have s: "status_400_401_403
      (always forbidden_page 0 (js ''/api/delegation/did%3Akey%3Az6MkAgent''))"
    by (simp add: status_400_401_403_def always_def forbidden_page_def)
  have "retry_loop (always forbidden_page) [] (js ''did:key:z6MkAgent'') 3 1000 0 None [] =
      (requestOutcome (always forbidden_page 2 ?u), [] @ schedule ?u 1000 0 2)"
    by (rule retry_loop_stops [OF agent_did_encoded])
      (simp_all add: page retried_failure_def)
  then have p: "getDelegationWithRetry_default (always forbidden_page) (js ''did:key:z6MkAgent'') =
      (Inl (APIError (js ''Unexpected token < in JSON at position 0'') None),
       [Fetch (js ''/api/delegation/did%3Akey%3Az6MkAgent''), Sleep 1000,
        Fetch (js ''/api/delegation/did%3Akey%3Az6MkAgent''), Sleep 2000,
        Fetch (js ''/api/delegation/did%3Akey%3Az6MkAgent'')])"
    unfolding getDelegationWithRetry_default_def getDelegationWithRetry_def page
      schedule_examples agent_url
    by simp
  have "retry_loop (always forbidden_json) [] (js ''did:key:z6MkAgent'') 3 1000 0 None [] =
      (requestOutcome (always forbidden_json 0 ?u), [] @ schedule ?u 1000 0 0)"
    by (rule retry_loop_stops [OF agent_did_encoded])
      (simp_all add: json retried_failure_def)
  then have j: "getDelegationWithRetry_default (always forbidden_json) (js ''did:key:z6MkAgent'') =
      (Inl (APIError (js ''Not allowed'') (Some 403)),
       [Fetch (js ''/api/delegation/did%3Akey%3Az6MkAgent'')])"
    unfolding getDelegationWithRetry_default_def getDelegationWithRetry_def json
      schedule_examples agent_url
    by simp
  show ?thesis
    by (intro conjI s p j)
qed

section \<open>Properties of the content-identifier utilities\<close>

subsection \<open>\<open>extractCID\<close> on a bare identifier\<close>

lemma startsWith_set: "startsWith s p \<Longrightarrow> set p \<subseteq> set s"
  unfolding startsWith_def by (metis set_take_subset)

lemma not_startsWith_slash:
  assumes "slash \<notin> set s" "slash \<in> set p"
  shows "\<not> startsWith s p"
  using assms startsWith_set by blast

lemma slash_in_literals:
  "slash \<in> set (js ''ipfs://'')" "slash \<in> set (js ''https://'')" "slash \<in> set (js ''http://'')"
  "slash \<in> set (js ''/ipfs/'')"
  by (simp_all add: slash_def)

lemma stripScheme_no_slash:
  assumes "slash \<notin> set s"
  shows "stripScheme s = s"
proof -
  note n = not_startsWith_slash [OF assms]
  show ?thesis
    unfolding stripScheme_def
    by (simp only: n [OF slash_in_literals(1)] n [OF slash_in_literals(2)]
        n [OF slash_in_literals(3)] if_False)
qed

lemma stripIpfsPath_no_slash:
  assumes "slash \<notin> set s"
  shows "stripIpfsPath s = s"
  unfolding stripIpfsPath_def
  by (simp only: not_startsWith_slash [OF assms slash_in_literals(4)] if_False)

lemma firstSegment_no_slash: "slash \<notin> set s \<Longrightarrow> firstSegment s = s"
  unfolding firstSegment_def by (auto simp: takeWhile_eq_all_conv) 

lemma gatewayMatch_dot: "gatewayMatch (c # cs) \<Longrightarrow> c = of_char CHR ''.''"
  by (simp add: gatewayMatch_def startsWith_def)

lemma stripGateway_no_dot: "of_char CHR ''.'' \<notin> set s \<Longrightarrow> stripGateway s = s"
  by (induction s) (auto dest: gatewayMatch_dot)

lemma extractCID_plain:
  assumes "slash \<notin> set s" "of_char CHR ''.'' \<notin> set s"
  shows "extractCID s = s"
  using assms
  by (simp add: extractCID_def stripScheme_no_slash stripGateway_no_dot stripIpfsPath_no_slash
      firstSegment_no_slash)

lemma isBase58_plain: "isBase58 c \<Longrightarrow> c \<noteq> slash \<and> c \<noteq> of_char CHR ''.'' \<and> c \<noteq> of_char CHR ''0''"
  by (auto simp: isBase58_def between_def slash_def)

lemma isBase58_generic: "isBase58 c \<Longrightarrow> isGeneric c"
  by (auto simp: isBase58_def between_def isGeneric_def isAlnum_def isDigit_def word_le_nat_alt)

subsection \<open>\<open>isValidCID\<close> on legacy (\<open>Qm\<close>) identifiers\<close>

lemma v0_extractCID:
  assumes "list_all (\<lambda>c. isBase58 c \<or> c = of_char CHR ''0'') t"
  shows "extractCID (js ''Qm'' @ t) = js ''Qm'' @ t"
proof (rule extractCID_plain)
  have t: "c \<noteq> slash \<and> c \<noteq> of_char CHR ''.''" if "c \<in> set t" for c
    using that assms isBase58_plain [of c] by (auto simp: list_all_iff slash_def)
  show "slash \<notin> set (js ''Qm'' @ t)" using t by (auto simp: slash_def)
  show "of_char CHR ''.'' \<notin> set (js ''Qm'' @ t)" using t by auto
qed

text \<open>What \<open>isValidCID\<close> computes on a string that starts with \<open>Qm\<close> and that
  \<open>extractCID\<close> leaves as it is.\<close>

lemma isValidCID_Qm:
  assumes "extractCID s = s" and "startsWith s (js ''Qm'')"
  shows "isValidCID s =
     (if length s = 46 then list_all isBase58 (drop 2 s)
      else 30 \<le> length s \<and> list_all isGeneric s)"
proof -
  obtain r where s: "s = of_char CHR ''Q'' # of_char CHR ''m'' # r"
    using assms(2) by (cases s; cases "tl s") (auto simp: startsWith_def)
  have pre: "\<not> startsWith s (js ''b'')" "\<not> startsWith s (js ''z'')"
    "\<not> startsWith s (js ''f'')" "\<not> startsWith s (js ''v'')"
    "\<not> startsWith s (js ''t'')" "\<not> startsWith s (js ''m'')"
    "\<not> startsWith s (js ''M'')" "hd s \<notin> set commonPrefixes" "s \<noteq> []"
    by (simp_all add: s startsWith_def commonPrefixes_def)
  show ?thesis
    unfolding isValidCID_def Let_def assms(1)
    using pre assms(2) by (simp only: if_False if_True simp_thms) (simp add: not_less)
qed

lemma v0_shape:
  "startsWith (js ''Qm'' @ t) (js ''Qm'')"
  "length (js ''Qm'' @ t) = length t + 2"
  "drop 2 (js ''Qm'' @ t) = t"
  by (simp_all add: startsWith_def)

lemma isValidCID_v0_string:
  assumes "list_all (\<lambda>c. isBase58 c \<or> c = of_char CHR ''0'') t"
  shows "isValidCID (js ''Qm'' @ t) =
     (if length t = 44 then list_all isBase58 t
      else 28 \<le> length t \<and> list_all isGeneric (js ''Qm'' @ t))"
proof -
  have "isValidCID (js ''Qm'' @ t) =
      (if length (js ''Qm'' @ t) = 46 then list_all isBase58 (drop 2 (js ''Qm'' @ t))
       else 30 \<le> length (js ''Qm'' @ t) \<and> list_all isGeneric (js ''Qm'' @ t))"
    by (rule isValidCID_Qm [OF v0_extractCID [OF assms] v0_shape(1)])
  also have "\<dots> = (if length t = 44 then list_all isBase58 t
      else 28 \<le> length t \<and> list_all isGeneric (js ''Qm'' @ t))"
    unfolding v0_shape(2,3) by simp
  finally show ?thesis .
qed

text \<open>
  C4, as the code has it. A string of \<open>Qm\<close> and 44 base58btc characters is accepted.
  The same string with one of the 44 characters after \<open>Qm\<close> replaced by \<open>0\<close> is
  rejected: it still has length 46 and starts with \<open>Qm\<close>, so the exact pattern of the
  first branch decides. The string cut to its first 45 characters is accepted: it no
  longer meets the length test of the first branch, no later prefix applies, and the
  generic check at the end (length at least 30, characters in \<open>[a-zA-Z0-9_.-]\<close>) lets it
  through.
\<close>

theorem isValidCID_v0:
  assumes len: "length t = 44" and b58: "list_all isBase58 t" and lo: "2 \<le> i" and hi: "i < 46"
  shows "isValidCID (js ''Qm'' @ t)
       \<and> \<not> isValidCID ((js ''Qm'' @ t)[i := of_char CHR ''0''])
       \<and> isValidCID (take 45 (js ''Qm'' @ t))"
proof (intro conjI)
  have ok: "list_all (\<lambda>c. isBase58 c \<or> c = of_char CHR ''0'') t"
    using b58 by (auto simp: list_all_iff)
  show "isValidCID (js ''Qm'' @ t)"
    using isValidCID_v0_string [OF ok] len b58 by simp
next
  define j where "j = i - 2"
  have i: "i = Suc (Suc j)" using lo by (simp add: j_def)
  have j: "j < length t" using hi len by (simp add: i)
  define t' where "t' = t[j := of_char CHR ''0'' :: jschar]"
  have upd: "(js ''Qm'' @ t)[i := of_char CHR ''0''] = js ''Qm'' @ t'"
    by (simp add: t'_def i)
  have len': "length t' = 44" using len by (simp add: t'_def)
  have ok: "list_all (\<lambda>c. isBase58 c \<or> c = of_char CHR ''0'') t'"
    using b58 set_update_subset_insert [of t j "of_char CHR ''0''"]
    unfolding t'_def list_all_iff by auto
  have mem: "of_char CHR ''0'' \<in> set t'"
    using j unfolding t'_def by (rule set_update_memI)
  have bad: "\<not> list_all isBase58 t'"
    using mem isBase58_plain [of "of_char CHR ''0''"] unfolding list_all_iff by blast
  show "\<not> isValidCID ((js ''Qm'' @ t)[i := of_char CHR ''0''])"
    unfolding upd using isValidCID_v0_string [OF ok] len' bad by simp
next
  define u where "u = take 43 t"
  have tk: "take 45 (js ''Qm'' @ t) = js ''Qm'' @ u"
    by (simp add: u_def)
  have len': "length u = 43" using len by (simp add: u_def)
  have b58': "list_all isBase58 u"
    using b58 unfolding u_def list_all_iff by (auto dest: in_set_takeD)
  then have ok: "list_all (\<lambda>c. isBase58 c \<or> c = of_char CHR ''0'') u"
    by (auto simp: list_all_iff)
  have q: "isGeneric (of_char CHR ''Q'')" "isGeneric (of_char CHR ''m'')"
    by (simp_all add: isGeneric_def isAlnum_def between_def)
  have gen: "list_all isGeneric (js ''Qm'' @ u)"
    using b58' isBase58_generic q by (auto simp: list_all_iff)
  show "isValidCID (take 45 (js ''Qm'' @ t))"
    unfolding tk using isValidCID_v0_string [OF ok] len' gen by simp
qed

text \<open>The theorem at a well-known CIDv0, with the character at index 10 replaced.\<close>

theorem isValidCID_v0_witness:
  "length (js ''YwAPJzv5CZsnA625s3Xf2nemtYgPpHdWEz79ojWnPbdG'') = 44
   \<and> list_all isBase58 (js ''YwAPJzv5CZsnA625s3Xf2nemtYgPpHdWEz79ojWnPbdG'')
   \<and> (2::nat) \<le> 10 \<and> (10::nat) < 46
   \<and> isValidCID (js ''Qm'' @ js ''YwAPJzv5CZsnA625s3Xf2nemtYgPpHdWEz79ojWnPbdG'')
   \<and> \<not> isValidCID
        ((js ''Qm'' @ js ''YwAPJzv5CZsnA625s3Xf2nemtYgPpHdWEz79ojWnPbdG'')[10 := of_char CHR ''0''])
   \<and> isValidCID (take 45 (js ''Qm'' @ js ''YwAPJzv5CZsnA625s3Xf2nemtYgPpHdWEz79ojWnPbdG''))"
proof -
  let ?t = "js ''YwAPJzv5CZsnA625s3Xf2nemtYgPpHdWEz79ojWnPbdG''"
  have h1: "length ?t = 44" by simp
  have h2: "list_all isBase58 ?t" by (simp add: isBase58_def between_def)
  have h3: "(2::nat) \<le> 10" by simp
  have h4: "(10::nat) < 46" by simp
  note th = isValidCID_v0 [OF h1 h2 h3 h4]
  show ?thesis
    by (intro conjI h1 h2 h3 h4 conjunct1 [OF th] conjunct1 [OF conjunct2 [OF th]]
        conjunct2 [OF conjunct2 [OF th]])
qed

text \<open>
  The claim as the specification states it asks for the 45-character string to be
  rejected. Here it is accepted, by evaluating \<open>isValidCID\<close> itself.
\<close>

lemma extractCID_truncated_v0:
  "extractCID (js ''QmYwAPJzv5CZsnA625s3Xf2nemtYgPpHdWEz79ojWnPbd'') =
     js ''QmYwAPJzv5CZsnA625s3Xf2nemtYgPpHdWEz79ojWnPbd''"
  by (simp add: extractCID_def stripScheme_def startsWith_def gatewayMatch_def
      stripIpfsPath_def firstSegment_def slash_def)

theorem isValidCID_length45_counterexample:
  "take 45 (js ''QmYwAPJzv5CZsnA625s3Xf2nemtYgPpHdWEz79ojWnPbdG'') =
     js ''QmYwAPJzv5CZsnA625s3Xf2nemtYgPpHdWEz79ojWnPbd''
   \<and> length (js ''QmYwAPJzv5CZsnA625s3Xf2nemtYgPpHdWEz79ojWnPbd'') = 45
   \<and> isValidCID (js ''QmYwAPJzv5CZsnA625s3Xf2nemtYgPpHdWEz79ojWnPbd'')"
proof (intro conjI)
  show "take 45 (js ''QmYwAPJzv5CZsnA625s3Xf2nemtYgPpHdWEz79ojWnPbdG'') =
      js ''QmYwAPJzv5CZsnA625s3Xf2nemtYgPpHdWEz79ojWnPbd''"
    by simp
  show "length (js ''QmYwAPJzv5CZsnA625s3Xf2nemtYgPpHdWEz79ojWnPbd'') = 45"
    by simp
  show "isValidCID (js ''QmYwAPJzv5CZsnA625s3Xf2nemtYgPpHdWEz79ojWnPbd'')"
    unfolding isValidCID_def extractCID_truncated_v0 Let_def
    by (simp add: startsWith_def commonPrefixes_def isGeneric_def isAlnum_def isDigit_def
        between_def)
qed

subsection \<open>Gateway URLs\<close>

text \<open>\<open>https://<id>.ipfs.<gateway>\<close>\<close>

definition gatewayURL :: "jsstring \<Rightarrow> jsstring \<Rightarrow> jsstring" where
  "gatewayURL ident gateway = js ''https://'' @ ident @ js ''.ipfs.'' @ gateway"

text \<open>A string without unpaired surrogates (\<open>String.prototype.isWellFormed\<close>).\<close>

fun wellFormed :: "jsstring \<Rightarrow> bool" where
  "wellFormed [] = True"
| "wellFormed (c # cs) =
     (if isLeadSurrogate c then
        (case cs of [] \<Rightarrow> False | d # ds \<Rightarrow> isTrailSurrogate d \<and> wellFormed ds)
      else \<not> isTrailSurrogate c \<and> wellFormed cs)"

lemma uriUnescaped_not_surrogate:
  "uriUnescaped c \<Longrightarrow> \<not> isLeadSurrogate c \<and> \<not> isTrailSurrogate c"
  by (auto simp: uriUnescaped_def isAlnum_def isDigit_def between_def isLeadSurrogate_def
      isTrailSurrogate_def word_le_nat_alt)

lemma lead_not_trail: "isLeadSurrogate c \<Longrightarrow> \<not> isTrailSurrogate c"
  by (auto simp: isLeadSurrogate_def isTrailSurrogate_def word_le_nat_alt)

lemma encodeURIComponent_wellFormed:
  "wellFormed s \<Longrightarrow> \<exists>enc. encodeURIComponent s = Inr enc"
proof (induction s rule: wellFormed.induct)
  case 1
  then show ?case by simp
next
  case (2 c cs)
  show ?case
  proof (cases "isLeadSurrogate c")
    case True
    with "2.prems" obtain d ds where cs: "cs = d # ds" and d: "isTrailSurrogate d"
      and wf: "wellFormed ds"
      by (auto split: list.splits)
    from "2.IH"(1) [OF True cs] wf obtain r where "encodeURIComponent ds = Inr r" by blast
    with True cs d uriUnescaped_not_surrogate [of c] lead_not_trail [of c] show ?thesis
      by auto
  next
    case False
    with "2.prems" have nt: "\<not> isTrailSurrogate c" and wf: "wellFormed cs" by auto
    from "2.IH"(2) [OF False] wf obtain r where "encodeURIComponent cs = Inr r" by blast
    with False nt show ?thesis by auto
  qed
qed

lemma encodeURIComponent_malformed:
  "\<not> wellFormed s \<Longrightarrow> encodeURIComponent s = Inl (URIError (js ''URI malformed''))"
proof (induction s rule: wellFormed.induct)
  case 1
  then show ?case by simp
next
  case (2 c cs)
  show ?case
  proof (cases "isLeadSurrogate c")
    case True
    note nu = uriUnescaped_not_surrogate [of c] lead_not_trail [OF True]
    show ?thesis
    proof (cases cs)
      case Nil
      with True nu show ?thesis by auto
    next
      case (Cons d ds)
      show ?thesis
      proof (cases "isTrailSurrogate d")
        case t: True
        with "2.prems" True Cons have "\<not> wellFormed ds" by simp
        from "2.IH"(1) [OF True Cons this] True t Cons nu show ?thesis by auto
      next
        case False
        with True Cons nu show ?thesis by auto
      qed
    qed
  next
    case False
    show ?thesis
    proof (cases "isTrailSurrogate c")
      case True
      with uriUnescaped_not_surrogate [of c] show ?thesis by auto
    next
      case nt: False
      with "2.prems" False have "\<not> wellFormed cs" by simp
      from "2.IH"(2) [OF False this] False nt show ?thesis by auto
    qed
  qed
qed

lemma fileSuffix_absent: "fileSuffix None = Inr []" "fileSuffix (Some []) = Inr []"
  by (simp_all add: fileSuffix_def)

lemma fileSuffix_encoded:
  "f \<noteq> [] \<Longrightarrow> encodeURIComponent (stripLeadingSlash f) = Inr enc \<Longrightarrow>
     fileSuffix (Some f) = Inr (js ''/'' @ enc)"
  by (simp add: fileSuffix_def)

lemma fileSuffix_malformed:
  "f \<noteq> [] \<Longrightarrow> \<not> wellFormed (stripLeadingSlash f) \<Longrightarrow>
     fileSuffix (Some f) = Inl (URIError (js ''URI malformed''))"
  by (simp add: fileSuffix_def encodeURIComponent_malformed del: list.map)

lemma createGatewayURL_invalid:
  "\<not> isValidCID (extractCID cid) \<Longrightarrow>
     createGatewayURL cid filename gateway = Inl (Error (js ''Invalid CID: '' @ cid))"
  by (simp add: createGatewayURL_def del: list.map)

lemma createGatewayURL_valid:
  "isValidCID (extractCID cid) \<Longrightarrow> fileSuffix filename = Inr suffix \<Longrightarrow>
     createGatewayURL cid filename gateway = Inr (gatewayURL (extractCID cid) gateway @ suffix)"
  by (simp add: createGatewayURL_def gatewayURL_def del: list.map)

lemma mapGateways_ok:
  "fileSuffix filename = Inr suffix \<Longrightarrow>
     mapGateways cleanCID filename gs = Inr (map (\<lambda>g. gatewayURL cleanCID g @ suffix) gs)"
  by (induction gs) (simp_all add: gatewayURL_def)

lemma mapGateways_throws:
  "fileSuffix filename = Inl e \<Longrightarrow> gs \<noteq> [] \<Longrightarrow> mapGateways cleanCID filename gs = Inl e"
  by (cases gs) simp_all

lemma length_gateways: "length gateways = 5"
  by (simp add: gateways_def)

lemma valid_v0_example:
  "extractCID (js ''QmYwAPJzv5CZsnA625s3Xf2nemtYgPpHdWEz79ojWnPbdG'') =
     js ''QmYwAPJzv5CZsnA625s3Xf2nemtYgPpHdWEz79ojWnPbdG''"
  "isValidCID (js ''QmYwAPJzv5CZsnA625s3Xf2nemtYgPpHdWEz79ojWnPbdG'')"
proof -
  show e: "extractCID (js ''QmYwAPJzv5CZsnA625s3Xf2nemtYgPpHdWEz79ojWnPbdG'') =
     js ''QmYwAPJzv5CZsnA625s3Xf2nemtYgPpHdWEz79ojWnPbdG''"
    by (simp add: extractCID_def stripScheme_def startsWith_def gatewayMatch_def
        stripIpfsPath_def firstSegment_def slash_def)
  show "isValidCID (js ''QmYwAPJzv5CZsnA625s3Xf2nemtYgPpHdWEz79ojWnPbdG'')"
    unfolding isValidCID_def e Let_def
    by (simp add: startsWith_def isBase58_def between_def)
qed

lemma invalid_example:
  "extractCID (js ''not-a-cid'') = js ''not-a-cid''"
  "\<not> isValidCID (js ''not-a-cid'')"
proof -
  show e: "extractCID (js ''not-a-cid'') = js ''not-a-cid''"
    by (simp add: extractCID_def stripScheme_def startsWith_def gatewayMatch_def
        stripIpfsPath_def firstSegment_def slash_def)
  show "\<not> isValidCID (js ''not-a-cid'')"
    unfolding isValidCID_def e Let_def
    by (simp add: startsWith_def commonPrefixes_def)
qed

lemma encode_examples:
  "encodeURIComponent (js ''my file.png'') = Inr (js ''my%20file.png'')"
  "encodeURIComponent (js ''/a.png'') = Inr (js ''%2Fa.png'')"
  "encodeURIComponent (js ''a.png'') = Inr (js ''a.png'')"
  "encodeURIComponent [0xD800] = Inl (URIError (js ''URI malformed''))"
  "encodeURIComponent [0xE9, 0x20AC, 0xD83D, 0xDE00] = Inr (js ''%C3%A9%E2%82%AC%F0%9F%98%80'')"
  by (simp_all add: uriUnescaped_def isAlnum_def isDigit_def between_def isTrailSurrogate_def
      isLeadSurrogate_def percentEncode_def utf8_def percent_def hexDigit_def)

text \<open>
  C9, as the code has it. When the cleaned identifier fails \<open>isValidCID\<close>, the builder
  throws \<open>Invalid CID: <input>\<close> and returns no URL. When it passes, the builder returns
  \<open>https://<id>.ipfs.<gateway>\<close> if the file name is absent or empty; for a non-empty file
  name it first removes one leading \<open>/\<close> from the name and then appends \<open>/\<close> and the
  encoded rest, provided the rest has no unpaired surrogate; if it has one,
  \<open>encodeURIComponent\<close> throws \<open>URIError\<close> and no URL is returned.
\<close>

theorem createGatewayURL_result:
  "(\<not> isValidCID (extractCID cid) \<longrightarrow>
      createGatewayURL cid filename gateway = Inl (Error (js ''Invalid CID: '' @ cid)))
   \<and> (isValidCID (extractCID cid) \<longrightarrow>
      createGatewayURL cid None gateway = Inr (gatewayURL (extractCID cid) gateway)
      \<and> createGatewayURL cid (Some []) gateway = Inr (gatewayURL (extractCID cid) gateway)
      \<and> (f \<noteq> [] \<and> wellFormed (stripLeadingSlash f) \<longrightarrow>
           (\<exists>enc. encodeURIComponent (stripLeadingSlash f) = Inr enc
              \<and> createGatewayURL cid (Some f) gateway =
                  Inr (gatewayURL (extractCID cid) gateway @ js ''/'' @ enc)))
      \<and> (f \<noteq> [] \<and> \<not> wellFormed (stripLeadingSlash f) \<longrightarrow>
           createGatewayURL cid (Some f) gateway = Inl (URIError (js ''URI malformed''))))"
proof (intro conjI impI)
  assume "\<not> isValidCID (extractCID cid)"
  then show "createGatewayURL cid filename gateway = Inl (Error (js ''Invalid CID: '' @ cid))"
    by (rule createGatewayURL_invalid)
next
  assume v: "isValidCID (extractCID cid)"
  show "createGatewayURL cid None gateway = Inr (gatewayURL (extractCID cid) gateway)"
    using createGatewayURL_valid [OF v fileSuffix_absent(1)] by simp
  show "createGatewayURL cid (Some []) gateway = Inr (gatewayURL (extractCID cid) gateway)"
    using createGatewayURL_valid [OF v fileSuffix_absent(2)] by simp
next
  assume v: "isValidCID (extractCID cid)" and f: "f \<noteq> [] \<and> wellFormed (stripLeadingSlash f)"
  then obtain enc where enc: "encodeURIComponent (stripLeadingSlash f) = Inr enc"
    using encodeURIComponent_wellFormed by blast
  have "createGatewayURL cid (Some f) gateway =
      Inr (gatewayURL (extractCID cid) gateway @ js ''/'' @ enc)"
    using f by (intro createGatewayURL_valid [OF v] fileSuffix_encoded enc) simp
  with enc show "\<exists>enc. encodeURIComponent (stripLeadingSlash f) = Inr enc
      \<and> createGatewayURL cid (Some f) gateway =
          Inr (gatewayURL (extractCID cid) gateway @ js ''/'' @ enc)"
    by blast
next
  assume v: "isValidCID (extractCID cid)" and f: "f \<noteq> [] \<and> \<not> wellFormed (stripLeadingSlash f)"
  then have "fileSuffix (Some f) = Inl (URIError (js ''URI malformed''))"
    by (intro fileSuffix_malformed) simp_all
  with v show "createGatewayURL cid (Some f) gateway = Inl (URIError (js ''URI malformed''))"
    by (simp add: createGatewayURL_def del: list.map)
qed

text \<open>
  The theorem at two inputs: a string that is no identifier, and a CIDv0 with the file
  name \<open>/my file.png\<close>.
\<close>

theorem createGatewayURL_result_witness:
  "\<not> isValidCID (extractCID (js ''not-a-cid''))
   \<and> createGatewayURL (js ''not-a-cid'') (Some (js ''a.png'')) defaultGateway =
       Inl (Error (js ''Invalid CID: not-a-cid''))
   \<and> isValidCID (extractCID (js ''QmYwAPJzv5CZsnA625s3Xf2nemtYgPpHdWEz79ojWnPbdG''))
   \<and> js ''/my file.png'' \<noteq> []
   \<and> wellFormed (stripLeadingSlash (js ''/my file.png''))
   \<and> createGatewayURL (js ''QmYwAPJzv5CZsnA625s3Xf2nemtYgPpHdWEz79ojWnPbdG'')
         (Some (js ''/my file.png'')) defaultGateway =
       Inr (js ''https://QmYwAPJzv5CZsnA625s3Xf2nemtYgPpHdWEz79ojWnPbdG.ipfs.dweb.link/my%20file.png'')"
proof -
  let ?cid = "js ''QmYwAPJzv5CZsnA625s3Xf2nemtYgPpHdWEz79ojWnPbdG''"
  let ?f = "js ''/my file.png''"
  have bad: "\<not> isValidCID (extractCID (js ''not-a-cid''))"
    by (simp only: invalid_example not_False_eq_True)
  have c1: "createGatewayURL (js ''not-a-cid'') (Some (js ''a.png'')) defaultGateway =
      Inl (Error (js ''Invalid CID: not-a-cid''))"
    using createGatewayURL_result [of "js ''not-a-cid''" "Some (js ''a.png'')" defaultGateway "[]"]
      bad by simp
  have v: "isValidCID (extractCID ?cid)"
    by (simp only: valid_v0_example)
  have ne: "?f \<noteq> []" by simp
  have strip: "stripLeadingSlash ?f = js ''my file.png''"
    by (simp add: stripLeadingSlash_def slash_def)
  have wf: "wellFormed (stripLeadingSlash ?f)"
    unfolding strip by (simp add: isLeadSurrogate_def isTrailSurrogate_def)
  have enc: "encodeURIComponent (stripLeadingSlash ?f) = Inr (js ''my%20file.png'')"
    unfolding strip by (rule encode_examples(1))
  from createGatewayURL_result [of ?cid None defaultGateway ?f] v ne wf
  obtain e where "encodeURIComponent (stripLeadingSlash ?f) = Inr e"
    and "createGatewayURL ?cid (Some ?f) defaultGateway =
      Inr (gatewayURL (extractCID ?cid) defaultGateway @ js ''/'' @ e)"
    by blast
  with enc have "createGatewayURL ?cid (Some ?f) defaultGateway =
      Inr (gatewayURL (extractCID ?cid) defaultGateway @ js ''/'' @ js ''my%20file.png'')"
    by simp
  then have c2: "createGatewayURL ?cid (Some ?f) defaultGateway =
      Inr (js ''https://QmYwAPJzv5CZsnA625s3Xf2nemtYgPpHdWEz79ojWnPbdG.ipfs.dweb.link/my%20file.png'')"
    using valid_v0_example(1) by (simp add: gatewayURL_def defaultGateway_def)
  show ?thesis
    by (intro conjI bad c1 v ne wf c2)
qed

text \<open>
  The claim as the specification states it promises, for every valid identifier, the URL
  followed by \<open>/\<close> and the url-encoded file name. For the file name \<open>/a.png\<close> the
  url-encoded name is \<open>%2Fa.png\<close>, and the builder returns a URL that ends in
  \<open>/a.png\<close>; for a file name that is one unpaired surrogate it returns nothing and
  throws.
\<close>

theorem createGatewayURL_filename_counterexample:
  "isValidCID (extractCID (js ''QmYwAPJzv5CZsnA625s3Xf2nemtYgPpHdWEz79ojWnPbdG''))
   \<and> encodeURIComponent (js ''/a.png'') = Inr (js ''%2Fa.png'')
   \<and> createGatewayURL (js ''QmYwAPJzv5CZsnA625s3Xf2nemtYgPpHdWEz79ojWnPbdG'')
         (Some (js ''/a.png'')) defaultGateway =
       Inr (js ''https://QmYwAPJzv5CZsnA625s3Xf2nemtYgPpHdWEz79ojWnPbdG.ipfs.dweb.link/a.png'')
   \<and> createGatewayURL (js ''QmYwAPJzv5CZsnA625s3Xf2nemtYgPpHdWEz79ojWnPbdG'')
         (Some (js ''/a.png'')) defaultGateway \<noteq>
       Inr (js ''https://QmYwAPJzv5CZsnA625s3Xf2nemtYgPpHdWEz79ojWnPbdG.ipfs.dweb.link/%2Fa.png'')
   \<and> createGatewayURL (js ''QmYwAPJzv5CZsnA625s3Xf2nemtYgPpHdWEz79ojWnPbdG'')
         (Some [0xD800]) defaultGateway = Inl (URIError (js ''URI malformed''))"
proof -
  let ?cid = "js ''QmYwAPJzv5CZsnA625s3Xf2nemtYgPpHdWEz79ojWnPbdG''"
  have v: "isValidCID (extractCID ?cid)"
    by (simp only: valid_v0_example)
  have s1: "fileSuffix (Some (js ''/a.png'')) = Inr (js ''/a.png'')"
    using encode_examples(3) by (simp add: fileSuffix_def stripLeadingSlash_def slash_def)
  have s2: "fileSuffix (Some [0xD800]) = Inl (URIError (js ''URI malformed''))"
    using encode_examples(4) by (simp add: fileSuffix_def stripLeadingSlash_def slash_def)
  have c1: "createGatewayURL ?cid (Some (js ''/a.png'')) defaultGateway =
      Inr (js ''https://QmYwAPJzv5CZsnA625s3Xf2nemtYgPpHdWEz79ojWnPbdG.ipfs.dweb.link/a.png'')"
    using v s1 valid_v0_example(1) by (simp add: createGatewayURL_def defaultGateway_def)
  have c2: "createGatewayURL ?cid (Some (js ''/a.png'')) defaultGateway \<noteq>
      Inr (js ''https://QmYwAPJzv5CZsnA625s3Xf2nemtYgPpHdWEz79ojWnPbdG.ipfs.dweb.link/%2Fa.png'')"
    unfolding c1 by simp
  have c3: "createGatewayURL ?cid (Some [0xD800]) defaultGateway =
      Inl (URIError (js ''URI malformed''))"
    using v s2 valid_v0_example(1) by (simp add: createGatewayURL_def)
  show ?thesis
    by (intro conjI v encode_examples(2) c1 c2 c3)
qed

text \<open>
  C10, as the code has it. For an identifier whose cleaned form fails \<open>isValidCID\<close> the
  multi-gateway builder returns the empty list, whatever the file name, where the
  single-gateway builder throws. For a valid cleaned identifier it returns five URLs, one
  per entry of the gateway list in order, each \<open>https://<id>.ipfs.<gateway>\<close>, followed for
  a non-empty file name by \<open>/\<close> and the encoding of the name less one leading \<open>/\<close>,
  provided that name has no unpaired surrogate; if it has one, \<open>encodeURIComponent\<close>
  throws \<open>URIError\<close> out of the builder.
\<close>

theorem createGatewayURLs_result:
  "(\<not> isValidCID (extractCID cid) \<longrightarrow>
      createGatewayURLs cid filename = Inr []
      \<and> createGatewayURL cid filename gateway = Inl (Error (js ''Invalid CID: '' @ cid)))
   \<and> (isValidCID (extractCID cid) \<longrightarrow>
      createGatewayURLs cid None = Inr (map (gatewayURL (extractCID cid)) gateways)
      \<and> createGatewayURLs cid (Some []) = Inr (map (gatewayURL (extractCID cid)) gateways)
      \<and> (f \<noteq> [] \<and> wellFormed (stripLeadingSlash f) \<longrightarrow>
           (\<exists>enc. encodeURIComponent (stripLeadingSlash f) = Inr enc
              \<and> createGatewayURLs cid (Some f) =
                  Inr (map (\<lambda>g. gatewayURL (extractCID cid) g @ js ''/'' @ enc) gateways)))
      \<and> (f \<noteq> [] \<and> \<not> wellFormed (stripLeadingSlash f) \<longrightarrow>
           createGatewayURLs cid (Some f) = Inl (URIError (js ''URI malformed''))))
   \<and> length gateways = 5"
proof (intro conjI impI)
  assume n: "\<not> isValidCID (extractCID cid)"
  then show "createGatewayURLs cid filename = Inr []"
    by (simp add: createGatewayURLs_def)
  from n show "createGatewayURL cid filename gateway = Inl (Error (js ''Invalid CID: '' @ cid))"
    by (rule createGatewayURL_invalid)
next
  assume v: "isValidCID (extractCID cid)"
  show "createGatewayURLs cid None = Inr (map (gatewayURL (extractCID cid)) gateways)"
    using v mapGateways_ok [OF fileSuffix_absent(1), of "extractCID cid" gateways]
    by (simp add: createGatewayURLs_def)
  show "createGatewayURLs cid (Some []) = Inr (map (gatewayURL (extractCID cid)) gateways)"
    using v mapGateways_ok [OF fileSuffix_absent(2), of "extractCID cid" gateways]
    by (simp add: createGatewayURLs_def)
next
  assume v: "isValidCID (extractCID cid)" and f: "f \<noteq> [] \<and> wellFormed (stripLeadingSlash f)"
  then obtain enc where enc: "encodeURIComponent (stripLeadingSlash f) = Inr enc"
    using encodeURIComponent_wellFormed by blast
  have suf: "fileSuffix (Some f) = Inr (js ''/'' @ enc)"
    using f by (intro fileSuffix_encoded enc) simp
  have "createGatewayURLs cid (Some f) =
      Inr (map (\<lambda>g. gatewayURL (extractCID cid) g @ js ''/'' @ enc) gateways)"
    using v mapGateways_ok [OF suf, of "extractCID cid" gateways]
    by (simp add: createGatewayURLs_def)
  with enc show "\<exists>enc. encodeURIComponent (stripLeadingSlash f) = Inr enc
      \<and> createGatewayURLs cid (Some f) =
          Inr (map (\<lambda>g. gatewayURL (extractCID cid) g @ js ''/'' @ enc) gateways)"
    by blast
next
  assume v: "isValidCID (extractCID cid)" and f: "f \<noteq> [] \<and> \<not> wellFormed (stripLeadingSlash f)"
  then have suf: "fileSuffix (Some f) = Inl (URIError (js ''URI malformed''))"
    by (intro fileSuffix_malformed) simp_all
  have ne: "gateways \<noteq> []" by (simp add: gateways_def)
  show "createGatewayURLs cid (Some f) = Inl (URIError (js ''URI malformed''))"
    using v mapGateways_throws [OF suf ne, of "extractCID cid"]
    by (simp add: createGatewayURLs_def)
next
  show "length gateways = 5" by (rule length_gateways)
qed

text \<open>
  The theorem at two inputs: a string that is no identifier, with a file name that could
  not even be encoded, and a CIDv0 with the file name \<open>a b.txt\<close>.
\<close>

theorem createGatewayURLs_result_witness:
  "\<not> isValidCID (extractCID (js ''not-a-cid''))
   \<and> createGatewayURLs (js ''not-a-cid'') (Some [0xD800]) = Inr []
   \<and> isValidCID (extractCID (js ''QmYwAPJzv5CZsnA625s3Xf2nemtYgPpHdWEz79ojWnPbdG''))
   \<and> js ''a b.txt'' \<noteq> []
   \<and> wellFormed (stripLeadingSlash (js ''a b.txt''))
   \<and> createGatewayURLs (js ''QmYwAPJzv5CZsnA625s3Xf2nemtYgPpHdWEz79ojWnPbdG'')
         (Some (js ''a b.txt'')) =
       Inr [js ''https://QmYwAPJzv5CZsnA625s3Xf2nemtYgPpHdWEz79ojWnPbdG.ipfs.dweb.link/a%20b.txt'',
            js ''https://QmYwAPJzv5CZsnA625s3Xf2nemtYgPpHdWEz79ojWnPbdG.ipfs.w3s.link/a%20b.txt'',
            js ''https://QmYwAPJzv5CZsnA625s3Xf2nemtYgPpHdWEz79ojWnPbdG.ipfs.ipfs.io/a%20b.txt'',
            js ''https://QmYwAPJzv5CZsnA625s3Xf2nemtYgPpHdWEz79ojWnPbdG.ipfs.cloudflare-ipfs.com/a%20b.txt'',
            js ''https://QmYwAPJzv5CZsnA625s3Xf2nemtYgPpHdWEz79ojWnPbdG.ipfs.gateway.pinata.cloud/a%20b.txt'']"
proof -
  let ?cid = "js ''QmYwAPJzv5CZsnA625s3Xf2nemtYgPpHdWEz79ojWnPbdG''"
  let ?f = "js ''a b.txt''"
  have bad: "\<not> isValidCID (extractCID (js ''not-a-cid''))"
    by (simp only: invalid_example not_False_eq_True)
  have c1: "createGatewayURLs (js ''not-a-cid'') (Some [0xD800]) = Inr []"
    using createGatewayURLs_result [of "js ''not-a-cid''" "Some [0xD800]" defaultGateway "[]"]
      bad by simp
  have v: "isValidCID (extractCID ?cid)"
    by (simp only: valid_v0_example)
  have ne: "?f \<noteq> []" by simp
  have strip: "stripLeadingSlash ?f = ?f"
    by (simp add: stripLeadingSlash_def slash_def)
  have wf: "wellFormed (stripLeadingSlash ?f)"
    unfolding strip by (simp add: isLeadSurrogate_def isTrailSurrogate_def)
  have enc: "encodeURIComponent (stripLeadingSlash ?f) = Inr (js ''a%20b.txt'')"
    unfolding strip
    by (simp add: uriUnescaped_def isAlnum_def isDigit_def between_def isTrailSurrogate_def
        isLeadSurrogate_def percentEncode_def utf8_def percent_def hexDigit_def)
  from createGatewayURLs_result [of ?cid None defaultGateway ?f] v ne wf
  obtain e where "encodeURIComponent (stripLeadingSlash ?f) = Inr e"
    and "createGatewayURLs ?cid (Some ?f) =
      Inr (map (\<lambda>g. gatewayURL (extractCID ?cid) g @ js ''/'' @ e) gateways)"
    by blast
  with enc have "createGatewayURLs ?cid (Some ?f) =
      Inr (map (\<lambda>g. gatewayURL (extractCID ?cid) g @ js ''/'' @ js ''a%20b.txt'') gateways)"
    by simp
  then have c2: "createGatewayURLs ?cid (Some ?f) =
       Inr [js ''https://QmYwAPJzv5CZsnA625s3Xf2nemtYgPpHdWEz79ojWnPbdG.ipfs.dweb.link/a%20b.txt'',
            js ''https://QmYwAPJzv5CZsnA625s3Xf2nemtYgPpHdWEz79ojWnPbdG.ipfs.w3s.link/a%20b.txt'',
            js ''https://QmYwAPJzv5CZsnA625s3Xf2nemtYgPpHdWEz79ojWnPbdG.ipfs.ipfs.io/a%20b.txt'',
            js ''https://QmYwAPJzv5CZsnA625s3Xf2nemtYgPpHdWEz79ojWnPbdG.ipfs.cloudflare-ipfs.com/a%20b.txt'',
            js ''https://QmYwAPJzv5CZsnA625s3Xf2nemtYgPpHdWEz79ojWnPbdG.ipfs.gateway.pinata.cloud/a%20b.txt'']"
    using valid_v0_example(1) by (simp add: gatewayURL_def gateways_def)
  show ?thesis
    by (intro conjI bad c1 v ne wf c2)
qed

text \<open>
  The claim as stated says that the builder never throws. With a valid identifier and a
  file name that is one unpaired surrogate, \<open>encodeURIComponent\<close> throws inside the
  \<open>map\<close> callback and the builder returns no list.
\<close>

theorem createGatewayURLs_throws_counterexample:
  "isValidCID (extractCID (js ''QmYwAPJzv5CZsnA625s3Xf2nemtYgPpHdWEz79ojWnPbdG''))
   \<and> createGatewayURLs (js ''QmYwAPJzv5CZsnA625s3Xf2nemtYgPpHdWEz79ojWnPbdG'') (Some [0xD800]) =
       Inl (URIError (js ''URI malformed''))"
proof -
  let ?cid = "js ''QmYwAPJzv5CZsnA625s3Xf2nemtYgPpHdWEz79ojWnPbdG''"
  have v: "isValidCID (extractCID ?cid)"
    by (simp only: valid_v0_example)
  have s: "fileSuffix (Some [0xD800]) = Inl (URIError (js ''URI malformed''))"
    using encode_examples(4) by (simp add: fileSuffix_def stripLeadingSlash_def slash_def)
  have c: "createGatewayURLs ?cid (Some [0xD800]) = Inl (URIError (js ''URI malformed''))"
    using v s by (simp add: createGatewayURLs_def gateways_def)
  show ?thesis
    by (intro conjI v c)
qed

section \<open>The hooks of the web applications (\<open>useStoracha\<close>)\<close>

text \<open>
  Two applications of the repository carry a hook of this name: the upload demo
  (\<open>src/hooks/useStoracha.ts\<close>, with \<open>setupDelegation\<close>) and the gallery application (with
  \<open>loginWithDelegation\<close>, \<open>uploadFile\<close> and the upload history). Where their code is the
  same text, one definition serves both. Record fields carry a prefix, since several
  interfaces of the sources share the names \<open>name\<close>, \<open>size\<close>, \<open>type\<close> and \<open>spaceDid\<close>.
\<close>

subsection \<open>Normalising base64 input\<close>

text \<open>The class \<open>[A-Za-z0-9+/=]\<close>.\<close>

definition isBase64Char :: "jschar \<Rightarrow> bool" where
  "isBase64Char c = (isAlnum c \<or> c = of_char CHR ''+'' \<or> c = slash \<or> c = of_char CHR ''='')"

text \<open>\<open>cleanBase64\<close> of both hooks: \<open>input.replace(/[^A-Za-z0-9+/=]/g, '').trim()\<close>.\<close>

definition cleanBase64 :: "jsstring \<Rightarrow> jsstring" where
  "cleanBase64 input = trim (filter isBase64Char input)"

text \<open>
  \<open>cleanBase64\<close> of the backend (\<open>server.js\<close>): \<open>null\<close> for an empty input, else trim,
  remove white space, remove every other character outside the class, and pad.
\<close>

function padToMultipleOf4 :: "jsstring \<Rightarrow> jsstring" where
  "padToMultipleOf4 cleaned =
     (if length cleaned mod 4 \<noteq> 0 then padToMultipleOf4 (cleaned @ js ''='') else cleaned)"
  by pat_completeness auto
termination
proof (relation "measure (\<lambda>cleaned. (4 - length cleaned mod 4) mod 4)")
  show "wf (measure (\<lambda>cleaned. (4 - length cleaned mod 4) mod 4))" by simp
next
  fix cleaned :: jsstring
  assume "length cleaned mod 4 \<noteq> 0"
  then show "(cleaned @ js ''='', cleaned) \<in> measure (\<lambda>cleaned. (4 - length cleaned mod 4) mod 4)"
    by (simp add: mod_Suc) presburger
qed

declare padToMultipleOf4.simps [simp del]

definition cleanBase64_server :: "jsstring \<Rightarrow> jsstring option" where
  "cleanBase64_server input =
     (if input = [] then None
      else
        (let cleaned = filter (\<lambda>c. \<not> isWhiteSpace c) (trim input);
             cleaned = filter isBase64Char cleaned
         in Some (padToMultipleOf4 cleaned)))"

subsection \<open>Sessions and local storage\<close>

datatype login_method = Email | Delegation

text \<open>\<open>UserSession\<close>; \<open>s_method = None\<close> is the \<open>null\<close> of the source.\<close>

record user_session =
  s_email :: jsstring
  s_isLoggedIn :: bool
  s_method :: "login_method option"
  s_spaceDid :: "jsstring option"
  s_agentDid :: "jsstring option"

definition emptySession :: user_session where
  "emptySession = \<lparr> s_email = [], s_isLoggedIn = False, s_method = None,
                    s_spaceDid = Some [], s_agentDid = Some [] \<rparr>"

text \<open>
  An item of \<open>localStorage\<close> is a text. What the hooks do with it depends only on whether
  it is empty and on what \<open>JSON.parse\<close> makes of it: the value it denotes, or a
  \<open>SyntaxError\<close>. \<open>Json v\<close> stands for a text that parses to \<open>v\<close> (what
  \<open>JSON.stringify(v)\<close> wrote), \<open>Malformed t\<close> for a text \<open>t\<close> that does not parse; the
  empty text is one of these.
\<close>

datatype 'a stored = Json 'a | Malformed jsstring

fun truthy :: "'a stored \<Rightarrow> bool" where
  "truthy (Json v) = True"
| "truthy (Malformed t) = (t \<noteq> [])"

fun JSON_parse :: "'a stored \<Rightarrow> error + 'a" where
  "JSON_parse (Json v) = Inr v"
| "JSON_parse (Malformed t) = Inl (SyntaxError (js ''Unexpected token''))"

text \<open>
  The initialiser of the \<open>userSession\<close> state in both hooks:
  \<open>saved ? JSON.parse(saved) : { email: '', isLoggedIn: false, method: null, ... }\<close>,
  where \<open>saved\<close> is \<open>localStorage.getItem(SESSION_KEY)\<close>, \<open>null\<close> when the key is absent.
\<close>

definition initialUserSession :: "user_session stored option \<Rightarrow> error + user_session" where
  "initialUserSession saved =
     (case saved of
        None \<Rightarrow> Inr emptySession
      | Some text \<Rightarrow> if truthy text then JSON_parse text else Inr emptySession)"

subsection \<open>The client SDK, as the hooks see it\<close>

text \<open>
  The SDK is not part of the repository. A namespace is known by its DID; a client holds
  the namespaces it knows, the current one and its agent's DID. Each SDK call the hooks
  make either returns or throws; which of the two is a parameter of the model
  (\<open>sdk\<close>), and every call made is recorded.
\<close>

record space =
  sp_did :: jsstring
  sp_name :: jsstring

record sdk_client =
  c_agentDid :: "jsstring option"
  c_spaces :: "space list"
  c_currentSpace :: "jsstring option"

text \<open>
  An entry of \<open>parsedProof.capabilities\<close>: the hooks test \<open>c.includes(cap)\<close> on a string
  and \<open>JSON.stringify(c).includes(cap)\<close> on anything else; \<open>CapObject\<close> holds that JSON
  text (the SDK's capabilities are plain objects \<open>{ can, with, nb }\<close>, for which
  \<open>JSON.stringify\<close> returns a string).
\<close>

datatype capability = CapString jsstring | CapObject jsstring

record parsed_proof =
  capabilities :: "capability list option"

record sdk =
  Signer_parse :: "jsstring \<Rightarrow> error + jsstring"
  createClient :: "jsstring \<Rightarrow> error + sdk_client"
  Proof_parse :: "jsstring \<Rightarrow> error + parsed_proof"
  addSpace :: "sdk_client \<Rightarrow> parsed_proof \<Rightarrow> error + sdk_client"
  setCurrentSpace :: "sdk_client \<Rightarrow> jsstring \<Rightarrow> error + sdk_client"

datatype sdk_call =
    CallSignerParse | CallCreateClient | CallProofParse | CallAddSpace | CallSpaces
  | CallSetCurrentSpace jsstring

subsection \<open>The delegation bootstrap\<close>

text \<open>\<open>DelegationConfig\<close>\<close>

record delegation_config =
  d_key :: jsstring
  d_proof :: jsstring
  d_spaceDid :: "jsstring option"

text \<open>\<open>parsedProof.capabilities || []\<close>\<close>

definition capabilitiesOf :: "parsed_proof \<Rightarrow> capability list" where
  "capabilitiesOf parsedProof = (case capabilities parsedProof of None \<Rightarrow> [] | Some cs \<Rightarrow> cs)"

definition requiredCapabilities :: "jsstring list" where
  "requiredCapabilities = [js ''space/blob/add'', js ''space/index/add'', js ''upload/add'']"

fun capabilityIncludes :: "capability \<Rightarrow> jsstring \<Rightarrow> bool" where
  "capabilityIncludes (CapString c) cap = str_includes c cap"
| "capabilityIncludes (CapObject json) cap = str_includes json cap"

definition missingCapabilities :: "capability list \<Rightarrow> jsstring list" where
  "missingCapabilities caps =
     filter (\<lambda>cap. \<not> list_ex (\<lambda>c. capabilityIncludes c cap) caps) requiredCapabilities"

definition missingCapabilitiesMessage :: "jsstring list \<Rightarrow> jsstring" where
  "missingCapabilitiesMessage missing =
     js ''Delegation proof missing required capabilities: '' @ join (js '', '') missing
       @ js ''. Please regenerate with proper permissions.''"

definition noSpaceMessage :: jsstring where
  "noSpaceMessage = js ''No space available. The provided proof may not delegate access to a usable space, or the client failed to initialize it.''"

text \<open>
  The choice of \<open>currentSpace\<close>: the namespace with the requested DID if one was requested
  (a non-empty string) and is known, else the first known namespace, else \<open>null\<close>.
\<close>

definition selectSpace :: "jsstring option \<Rightarrow> space list \<Rightarrow> space option" where
  "selectSpace requested spaces =
     (let first = (case spaces of [] \<Rightarrow> None | s # rest \<Rightarrow> Some s) in
      case requested of
        None \<Rightarrow> first
      | Some r \<Rightarrow>
          if r = [] then first
          else (case find (\<lambda>s. sp_did s = r) spaces of
                  Some s \<Rightarrow> Some s
                | None \<Rightarrow> first))"

text \<open>
  The body of the \<open>try\<close> block, the same in \<open>loginWithDelegation\<close> and
  \<open>setupDelegation\<close>, up to the point where the session is built: the outcome, and the SDK
  calls made on the way.
\<close>

definition delegationSteps ::
  "sdk \<Rightarrow> delegation_config \<Rightarrow> (error + user_session \<times> sdk_client \<times> space) \<times> sdk_call list" where
  "delegationSteps k config =
     (let cleanProof = cleanBase64 (d_proof config);
          cleanKey = trim (d_key config)
      in
      if cleanProof = [] \<or> length cleanProof < 100 then
        (Inl (Error (js ''Invalid delegation proof. Proof too short or missing.'')), [])
      else if cleanKey = [] \<or> \<not> startsWith cleanKey (js ''Mg'') then
        (Inl (Error (js ''Invalid private key format. Should start with \"Mg\" and be base64 encoded.'')), [])
      else
        case Signer_parse k cleanKey of
          Inl e \<Rightarrow> (Inl e, [CallSignerParse])
        | Inr signer \<Rightarrow>
        case createClient k signer of
          Inl e \<Rightarrow> (Inl e, [CallSignerParse, CallCreateClient])
        | Inr storachaClient \<Rightarrow>
        case Proof_parse k cleanProof of
          Inl e \<Rightarrow> (Inl e, [CallSignerParse, CallCreateClient, CallProofParse])
        | Inr parsedProof \<Rightarrow>
        (let caps = capabilitiesOf parsedProof;
             missing = missingCapabilities caps
         in
         if length missing > 0 then
           (Inl (Error (missingCapabilitiesMessage missing)),
            [CallSignerParse, CallCreateClient, CallProofParse])
         else
           case addSpace k storachaClient parsedProof of
             Inl e \<Rightarrow> (Inl e, [CallSignerParse, CallCreateClient, CallProofParse, CallAddSpace])
           | Inr client1 \<Rightarrow>
           case selectSpace (d_spaceDid config) (c_spaces client1) of
             None \<Rightarrow>
               (Inl (Error noSpaceMessage),
                [CallSignerParse, CallCreateClient, CallProofParse, CallAddSpace, CallSpaces])
           | Some currentSpace \<Rightarrow>
           case setCurrentSpace k client1 (sp_did currentSpace) of
             Inl e \<Rightarrow>
               (Inl e,
                [CallSignerParse, CallCreateClient, CallProofParse, CallAddSpace, CallSpaces,
                 CallSetCurrentSpace (sp_did currentSpace)])
           | Inr client2 \<Rightarrow>
               (Inr (\<lparr> s_email = js ''delegation@user'', s_isLoggedIn = True,
                       s_method = Some Delegation, s_spaceDid = Some (sp_did currentSpace),
                       s_agentDid = c_agentDid client2 \<rparr>,
                     client2, currentSpace),
                [CallSignerParse, CallCreateClient, CallProofParse, CallAddSpace, CallSpaces,
                 CallSetCurrentSpace (sp_did currentSpace)])))"

text \<open>\<open>err.message || fallback\<close>\<close>

definition messageOr :: "error \<Rightarrow> jsstring \<Rightarrow> jsstring" where
  "messageOr err fallback = (if message err = [] then fallback else message err)"

subsection \<open>\<open>loginWithDelegation\<close> (gallery application)\<close>

text \<open>\<open>File\<close>, \<open>UploadedFile\<close>, \<open>UploadProgress\<close> and \<open>UploadResult\<close>.\<close>

record js_file =
  f_name :: jsstring
  f_size :: nat
  f_type :: jsstring

record uploaded_file =
  u_id :: jsstring
  u_name :: jsstring
  u_type :: jsstring
  u_size :: nat
  u_cid :: jsstring
  u_uploadedAt :: nat
  u_gatewayUrl :: jsstring
  u_thumbnailUrl :: "jsstring option"
  u_description :: "jsstring option"

datatype upload_status = Pending | Uploading | Completed | Errored

record upload_progress =
  p_fileId :: jsstring
  p_fileName :: jsstring
  p_progress :: nat
  p_status :: upload_status
  p_bytesUploaded :: nat
  p_totalBytes :: nat

record upload_result =
  r_cid :: jsstring
  r_url :: jsstring
  r_success :: bool
  r_error :: "jsstring option"
  r_file :: "uploaded_file option"

text \<open>
  The state of the hook: its \<open>useState\<close> cells, the keys of the \<open>abortControllers\<close> map, the
  two items it keeps in \<open>localStorage\<close>, and the SDK calls made so far.
\<close>

record hook_state =
  h_client :: "sdk_client option"
  h_space :: "space option"
  h_isInitializing :: bool
  h_uploadedFiles :: "uploaded_file list"
  h_error :: "jsstring option"
  h_isConnected :: bool
  h_userSession :: user_session
  h_uploadProgress :: "jsstring \<rightharpoonup> upload_progress"
  h_abortControllers :: "jsstring set"
  ls_session :: "user_session stored option"
  ls_uploads :: "uploaded_file list stored option"
  h_calls :: "sdk_call list"

definition saveSession :: "user_session \<Rightarrow> hook_state \<Rightarrow> hook_state" where
  "saveSession session st = st\<lparr> ls_session := Some (Json session), h_userSession := session \<rparr>"

definition saveUploads :: "uploaded_file list \<Rightarrow> hook_state \<Rightarrow> hook_state" where
  "saveUploads files st = st\<lparr> ls_uploads := Some (Json files) \<rparr>"

text \<open>\<open>err.toString()\<close>\<close>

fun errorName :: "error \<Rightarrow> jsstring" where
  "errorName (Error m) = js ''Error''"
| "errorName (TypeError m) = js ''TypeError''"
| "errorName (SyntaxError m) = js ''SyntaxError''"
| "errorName (URIError m) = js ''URIError''"
| "errorName (APIError m st) = js ''APIError''"

definition errorToString :: "error \<Rightarrow> jsstring" where
  "errorToString err =
     (if message err = [] then errorName err else errorName err @ js '': '' @ message err)"

datatype login_result = LoginSuccess user_session | LoginFailure jsstring jsstring

definition loginWithDelegation ::
  "sdk \<Rightarrow> delegation_config \<Rightarrow> hook_state \<Rightarrow> login_result \<times> hook_state" where
  "loginWithDelegation k delegationConfig st =
     (let st1 = st\<lparr> h_isInitializing := True, h_error := None \<rparr> in
      case delegationSteps k delegationConfig of
        (Inr (session, storachaClient, currentSpace), calls) \<Rightarrow>
          (LoginSuccess session,
           (saveSession session st1)
             \<lparr> h_client := Some storachaClient, h_space := Some currentSpace,
               h_isConnected := True, h_isInitializing := False,
               h_calls := h_calls st @ calls \<rparr>)
      | (Inl err, calls) \<Rightarrow>
          (let errorMessage = messageOr err (js ''Delegation login failed'') in
           (LoginFailure errorMessage (errorToString err),
            st1\<lparr> h_error := Some errorMessage, h_isConnected := False,
                 h_isInitializing := False, h_calls := h_calls st @ calls \<rparr>)))"

text \<open>
  The first render of the hook: the \<open>useState\<close> initialisers in their order. The upload
  history is read like the session:
  \<open>saved ? JSON.parse(saved).map(...) : []\<close>.
\<close>

definition initialUploadedFiles ::
  "uploaded_file list stored option \<Rightarrow> error + uploaded_file list" where
  "initialUploadedFiles saved =
     (case saved of
        None \<Rightarrow> Inr []
      | Some text \<Rightarrow> if truthy text then JSON_parse text else Inr [])"

definition useStoracha_init ::
  "user_session stored option \<Rightarrow> uploaded_file list stored option \<Rightarrow> error + hook_state" where
  "useStoracha_init savedSession savedUploads =
     (case initialUploadedFiles savedUploads of
        Inl e \<Rightarrow> Inl e
      | Inr files \<Rightarrow>
          (case initialUserSession savedSession of
             Inl e \<Rightarrow> Inl e
           | Inr session \<Rightarrow>
               Inr \<lparr> h_client = None, h_space = None, h_isInitializing = False,
                     h_uploadedFiles = files, h_error = None, h_isConnected = False,
                     h_userSession = session, h_uploadProgress = Map.empty,
                     h_abortControllers = {}, ls_session = savedSession,
                     ls_uploads = savedUploads, h_calls = [] \<rparr>))"

subsection \<open>\<open>setupDelegation\<close> (upload demo)\<close>

record demo_state =
  dm_client :: "sdk_client option"
  dm_space :: "space option"
  dm_spaceDid :: "jsstring option"
  dm_isInitializing :: bool
  dm_isUploading :: bool
  dm_error :: "jsstring option"
  dm_userSession :: user_session
  dm_ls_session :: "user_session stored option"
  dm_calls :: "sdk_call list"

definition dm_saveSession :: "user_session \<Rightarrow> demo_state \<Rightarrow> demo_state" where
  "dm_saveSession session st =
     st\<lparr> dm_ls_session := Some (Json session), dm_userSession := session \<rparr>"

definition setupDelegation :: "sdk \<Rightarrow> delegation_config \<Rightarrow> demo_state \<Rightarrow> bool \<times> demo_state" where
  "setupDelegation k delegationConfig st =
     (let st1 = st\<lparr> dm_isInitializing := True, dm_error := None \<rparr> in
      case delegationSteps k delegationConfig of
        (Inr (session, storachaClient, currentSpace), calls) \<Rightarrow>
          (True,
           (dm_saveSession session st1)
             \<lparr> dm_client := Some storachaClient, dm_space := Some currentSpace,
               dm_spaceDid := Some (sp_did currentSpace), dm_isInitializing := False,
               dm_calls := dm_calls st @ calls \<rparr>)
      | (Inl err, calls) \<Rightarrow>
          (False,
           st1\<lparr> dm_error := Some (messageOr err (js ''Delegation setup failed'')),
                dm_isInitializing := False, dm_calls := dm_calls st @ calls \<rparr>))"

subsection \<open>\<open>uploadFile\<close> (gallery application)\<close>

definition DEFAULT_GATEWAY :: jsstring where
  "DEFAULT_GATEWAY = js ''storacha.link''"

text \<open>\<open>`${Date.now()}-${file.name}`\<close>\<close>

definition fileId :: "nat \<Rightarrow> jsstring \<Rightarrow> jsstring" where
  "fileId now name = toString now @ js ''-'' @ name"

text \<open>
  What one call meets outside the hook: the clock at its three readings, how often the
  300 ms timer fires while the upload is pending, the outcome of \<open>client.uploadFile\<close>
  (the CID as \<open>String\<close> prints it, or the error thrown), and the engine's double
  arithmetic: \<open>floor_scaled progress size\<close> is what
  \<open>Math.floor((progress / 100) * size)\<close> evaluates to, which is not always the exact
  quotient.
\<close>

record upload_env =
  now_start :: nat
  timer_ticks :: nat
  floor_scaled :: "nat \<Rightarrow> nat \<Rightarrow> nat"
  upload_outcome :: "error + jsstring"
  now_id :: nat
  now_uploadedAt :: nat

text \<open>The first part of the call, before the \<open>try\<close> block: the id and the progress entry.\<close>

definition startUpload :: "nat \<Rightarrow> js_file \<Rightarrow> hook_state \<Rightarrow> hook_state" where
  "startUpload now f st =
     st\<lparr> h_abortControllers := insert (fileId now (f_name f)) (h_abortControllers st),
         h_uploadProgress := (h_uploadProgress st)(fileId now (f_name f) \<mapsto>
           \<lparr> p_fileId = fileId now (f_name f), p_fileName = f_name f, p_progress = 0,
             p_status = Pending, p_bytesUploaded = 0, p_totalBytes = f_size f \<rparr>) \<rparr>"

text \<open>\<open>{ ...prev, [fileId]: { ...prev[fileId], <changes> } }\<close> on an entry that exists.\<close>

definition patchProgress ::
  "jsstring \<Rightarrow> (upload_progress \<Rightarrow> upload_progress) \<Rightarrow> hook_state \<Rightarrow> hook_state" where
  "patchProgress fid change st =
     (case h_uploadProgress st fid of
        None \<Rightarrow> st
      | Some entry \<Rightarrow> st\<lparr> h_uploadProgress := (h_uploadProgress st)(fid \<mapsto> change entry) \<rparr>)"

text \<open>One firing of the progress timer.\<close>

definition progressTick ::
  "(nat \<Rightarrow> nat \<Rightarrow> nat) \<Rightarrow> jsstring \<Rightarrow> nat \<Rightarrow> hook_state \<Rightarrow> hook_state" where
  "progressTick scaled fid size_bytes st =
     (case h_uploadProgress st fid of
        None \<Rightarrow> st
      | Some current \<Rightarrow>
          if p_status current = Uploading \<and> p_progress current < 90 then
            st\<lparr> h_uploadProgress := (h_uploadProgress st)(fid \<mapsto>
                 current\<lparr> p_progress := min (p_progress current + 10) 90,
                          p_bytesUploaded := scaled (p_progress current) size_bytes \<rparr>) \<rparr>
          else st)"

text \<open>The inner \<open>catch\<close>: permission errors of the SDK are rewrapped.\<close>

definition mapUploadError :: "error \<Rightarrow> error" where
  "mapUploadError uploadErr =
     (if str_includes (message uploadErr) (js ''space/blob/add'')
         \<or> str_includes (message uploadErr) (js ''permission denied'')
         \<or> str_includes (message uploadErr) (js ''capability'')
      then Error (js ''Upload permission denied: '' @ message uploadErr
             @ js ''. Your delegation may not have 'space/blob/add' capability.'')
      else uploadErr)"

definition uploadFile ::
  "upload_env \<Rightarrow> js_file \<Rightarrow> jsstring option \<Rightarrow> hook_state \<Rightarrow> upload_result \<times> hook_state" where
  "uploadFile env f description st =
     (let fid = fileId (now_start env) (f_name f);
          st1 = startUpload (now_start env) f st;
          failed = (\<lambda>err s.
            (let errorMsg = messageOr err (js ''Upload failed'');
                 s1 = patchProgress fid (\<lambda>p. p\<lparr> p_status := Errored, p_progress := 0 \<rparr>) s
             in (\<lparr> r_cid = [], r_url = [], r_success = False, r_error = Some errorMsg,
                    r_file = None \<rparr>,
                 s1\<lparr> h_error := Some errorMsg,
                      h_abortControllers := h_abortControllers s1 - {fid} \<rparr>)))
      in
      if h_client st = None \<or> h_space st = None then
        failed (Error (js ''Please login first. Client or space not initialized.'')) st1
      else
        (let st2 = patchProgress fid (\<lambda>p. p\<lparr> p_status := Uploading, p_progress := 5 \<rparr>) st1;
             st3 = ((progressTick (floor_scaled env) fid (f_size f)) ^^ timer_ticks env) st2
         in
         case upload_outcome env of
           Inl uploadErr \<Rightarrow> failed (mapUploadError uploadErr) st3
         | Inr cidString \<Rightarrow>
             (let gatewayUrl = js ''https://'' @ cidString @ js ''.ipfs.'' @ DEFAULT_GATEWAY;
                  thumbnailUrl =
                    (if startsWith (f_type f) (js ''image/'')
                     then gatewayUrl @ js ''?img-width=300&img-height=300&img-fit=cover''
                     else gatewayUrl);
                  uploadedFile =
                    \<lparr> u_id = cidString @ js ''-'' @ toString (now_id env), u_name = f_name f,
                      u_type = f_type f, u_size = f_size f, u_cid = cidString,
                      u_uploadedAt = now_uploadedAt env, u_gatewayUrl = gatewayUrl,
                      u_thumbnailUrl = Some thumbnailUrl, u_description = description \<rparr>;
                  st4 = patchProgress fid
                          (\<lambda>p. p\<lparr> p_status := Completed, p_progress := 100,
                                  p_bytesUploaded := f_size f \<rparr>) st3;
                  updated = uploadedFile # h_uploadedFiles st4;
                  st5 = saveUploads updated (st4\<lparr> h_uploadedFiles := updated \<rparr>)
              in (\<lparr> r_cid = cidString, r_url = gatewayUrl, r_success = True, r_error = None,
                     r_file = Some uploadedFile \<rparr>,
                  st5\<lparr> h_abortControllers := h_abortControllers st5 - {fid} \<rparr>))))"

section \<open>Properties of the hooks\<close>

subsection \<open>Normalising base64 input\<close>

lemma isBase64Char_range: "isBase64Char c \<Longrightarrow> 43 \<le> unat c \<and> unat c \<le> 122"
  by (auto simp: isBase64Char_def isAlnum_def isDigit_def between_def slash_def word_le_nat_alt)

lemma isWhiteSpace_range: "isWhiteSpace c \<Longrightarrow> unat c \<le> 32 \<or> 160 \<le> unat c"
  by (auto simp: isWhiteSpace_def word_le_nat_alt)

lemma isBase64Char_not_white: "isBase64Char c \<Longrightarrow> \<not> isWhiteSpace c"
  using isBase64Char_range [of c] isWhiteSpace_range [of c] by linarith

lemma dropWhile_none: "\<forall>c\<in>set s. \<not> P c \<Longrightarrow> dropWhile P s = s"
  by (cases s) auto

lemma trim_no_white: "\<forall>c\<in>set s. \<not> isWhiteSpace c \<Longrightarrow> trim s = s"
  by (simp add: trim_def dropWhile_none)

lemma cleanBase64_filter: "cleanBase64 input = filter isBase64Char input"
  unfolding cleanBase64_def by (rule trim_no_white) (auto dest: isBase64Char_not_white)

lemma cleanBase64_alphabet: "list_all isBase64Char (cleanBase64 input)"
  by (simp add: cleanBase64_filter list_all_iff)

lemma filter_dropWhile_neg: "filter (\<lambda>c. \<not> P c) (dropWhile P s) = filter (\<lambda>c. \<not> P c) s"
  by (induction s) auto

lemma filter_trim:
  "filter (\<lambda>c. \<not> isWhiteSpace c) (trim s) = filter (\<lambda>c. \<not> isWhiteSpace c) s"
proof -
  have "filter (\<lambda>c. \<not> isWhiteSpace c) (trim s) =
      rev (filter (\<lambda>c. \<not> isWhiteSpace c) (dropWhile isWhiteSpace (rev (dropWhile isWhiteSpace s))))"
    by (simp add: trim_def rev_filter)
  also have "\<dots> = rev (filter (\<lambda>c. \<not> isWhiteSpace c) (rev (dropWhile isWhiteSpace s)))"
    by (simp only: filter_dropWhile_neg)
  also have "\<dots> = filter (\<lambda>c. \<not> isWhiteSpace c) (dropWhile isWhiteSpace s)"
    by (simp add: rev_filter)
  also have "\<dots> = filter (\<lambda>c. \<not> isWhiteSpace c) s"
    by (rule filter_dropWhile_neg)
  finally show ?thesis .
qed

lemma filter_base64_is_filter_white:
  "list_all (\<lambda>c. isBase64Char c \<or> isWhiteSpace c) s \<Longrightarrow>
     filter isBase64Char s = filter (\<lambda>c. \<not> isWhiteSpace c) s"
  by (induction s) (auto dest: isBase64Char_not_white)

lemma filter_base64_idem:
  "filter isBase64Char (filter (\<lambda>c. \<not> isWhiteSpace c) s) = filter isBase64Char s"
  by (induction s) (auto dest: isBase64Char_not_white)

lemma pad_count_step:
  assumes "n mod 4 \<noteq> (0::nat)"
  shows "(4 - n mod 4) mod 4 = Suc ((4 - Suc n mod 4) mod 4)"
proof -
  define m where "m = n mod 4"
  have "m < 4" unfolding m_def by simp
  with assms have m: "m = 1 \<or> m = 2 \<or> m = 3" unfolding m_def by linarith
  have s: "Suc n mod 4 = Suc m mod 4" unfolding m_def by (simp add: mod_Suc_eq)
  show ?thesis
    unfolding s m_def [symmetric] using m by auto
qed

lemma pad_count_total: "(n + (4 - n mod 4) mod 4) mod 4 = (0::nat)"
proof -
  define m where "m = n mod 4"
  have "m < 4" unfolding m_def by simp
  then have m: "m = 0 \<or> m = 1 \<or> m = 2 \<or> m = 3" by linarith
  have "(n + (4 - m) mod 4) mod 4 = (m + (4 - m) mod 4) mod 4"
    unfolding m_def by (simp add: mod_add_left_eq)
  also have "\<dots> = 0" using m by auto
  finally show ?thesis unfolding m_def .
qed

lemma padToMultipleOf4_eq:
  "padToMultipleOf4 s = s @ replicate ((4 - length s mod 4) mod 4) (of_char CHR ''='')"
proof (induction s rule: padToMultipleOf4.induct)
  case (1 cleaned)
  show ?case
  proof (cases "length cleaned mod 4 = 0")
    case True
    then show ?thesis by (simp add: padToMultipleOf4.simps [of cleaned])
  next
    case False
    have step: "padToMultipleOf4 cleaned = padToMultipleOf4 (cleaned @ js ''='')"
      using False by (subst padToMultipleOf4.simps) simp
    have ih: "padToMultipleOf4 (cleaned @ js ''='') = (cleaned @ js ''='') @
        replicate ((4 - length (cleaned @ js ''='') mod 4) mod 4) (of_char CHR ''='')"
      using False by (rule "1.IH")
    have len: "length (cleaned @ js ''='') = Suc (length cleaned)" by simp
    show ?thesis
      unfolding step ih len pad_count_step [OF False] by simp
  qed
qed

lemma padToMultipleOf4_length: "length (padToMultipleOf4 s) mod 4 = 0"
  unfolding padToMultipleOf4_eq by (simp add: pad_count_total)

lemma list_all_replicate: "P x \<Longrightarrow> list_all P (replicate n x)"
  by (induction n) auto

lemma cleanBase64_server_eq:
  "s \<noteq> [] \<Longrightarrow>
     cleanBase64_server s =
       Some (filter isBase64Char s
             @ replicate ((4 - length (filter isBase64Char s) mod 4) mod 4) (of_char CHR ''=''))"
  by (simp only: cleanBase64_server_def Let_def filter_trim filter_base64_idem
      padToMultipleOf4_eq if_False)

text \<open>
  C3, as the code has it. Let \<open>s\<close> hold only characters of the base64 alphabet
  (\<open>[A-Za-z0-9+/=]\<close>) and white space. The hooks' \<open>cleanBase64\<close> returns \<open>s\<close> without its
  white space, a string over the alphabet; it adds no padding, so the proof goes to the
  parser with whatever length it has. The backend's \<open>cleanBase64\<close> returns, for a
  non-empty \<open>s\<close>, the same string followed by fewer than four \<open>=\<close>, of a length that is a
  multiple of 4; for the empty string it returns \<open>null\<close>.
\<close>

theorem cleanBase64_normalizes:
  assumes "list_all (\<lambda>c. isBase64Char c \<or> isWhiteSpace c) s"
  shows "cleanBase64 s = filter (\<lambda>c. \<not> isWhiteSpace c) s
       \<and> list_all isBase64Char (cleanBase64 s)
       \<and> (s \<noteq> [] \<longrightarrow>
            (\<exists>n<4. cleanBase64_server s =
                 Some (filter (\<lambda>c. \<not> isWhiteSpace c) s @ replicate n (of_char CHR ''=''))
               \<and> list_all isBase64Char
                    (filter (\<lambda>c. \<not> isWhiteSpace c) s @ replicate n (of_char CHR ''=''))
               \<and> length (filter (\<lambda>c. \<not> isWhiteSpace c) s @ replicate n (of_char CHR ''=''))
                    mod 4 = 0))
       \<and> cleanBase64_server [] = None"
proof (intro conjI impI)
  note eq = filter_base64_is_filter_white [OF assms]
  show "cleanBase64 s = filter (\<lambda>c. \<not> isWhiteSpace c) s"
    by (simp only: cleanBase64_filter eq)
  show "list_all isBase64Char (cleanBase64 s)"
    by (rule cleanBase64_alphabet)
  show "cleanBase64_server [] = None"
    by (simp add: cleanBase64_server_def)
  assume ne: "s \<noteq> []"
  let ?r = "filter (\<lambda>c. \<not> isWhiteSpace c) s"
  let ?n = "(4 - length ?r mod 4) mod 4"
  have n: "?n < 4" by simp
  have srv: "cleanBase64_server s = Some (?r @ replicate ?n (of_char CHR ''=''))"
    using cleanBase64_server_eq [OF ne] by (simp only: eq)
  have eqc: "isBase64Char (of_char CHR ''='')"
    by (simp add: isBase64Char_def)
  have "list_all isBase64Char ?r"
    using cleanBase64_alphabet [of s] by (simp only: cleanBase64_filter eq)
  moreover have "list_all isBase64Char (replicate ?n (of_char CHR ''=''))"
    using eqc by (rule list_all_replicate [of isBase64Char])
  ultimately have alph: "list_all isBase64Char (?r @ replicate ?n (of_char CHR ''=''))"
    by (simp only: list_all_append simp_thms)
  have len: "length (?r @ replicate ?n (of_char CHR ''='')) mod 4 = 0"
    by (simp only: length_append length_replicate pad_count_total)
  show "\<exists>n<4. cleanBase64_server s = Some (?r @ replicate n (of_char CHR ''=''))
      \<and> list_all isBase64Char (?r @ replicate n (of_char CHR ''=''))
      \<and> length (?r @ replicate n (of_char CHR ''='')) mod 4 = 0"
    by (intro exI [of _ ?n] conjI n srv alph len)
qed

text \<open>The theorem at the input \<open>ab c\<close>: the hook gives \<open>abc\<close>, the backend \<open>abc=\<close>.\<close>

theorem cleanBase64_normalizes_witness:
  "list_all (\<lambda>c. isBase64Char c \<or> isWhiteSpace c) (js ''ab c'')
   \<and> js ''ab c'' \<noteq> []
   \<and> cleanBase64 (js ''ab c'') = js ''abc''
   \<and> list_all isBase64Char (cleanBase64 (js ''ab c''))
   \<and> cleanBase64_server (js ''ab c'') = Some (js ''abc='')"
proof -
  let ?s = "js ''ab c''"
  have h: "list_all (\<lambda>c. isBase64Char c \<or> isWhiteSpace c) ?s"
    by (simp add: isBase64Char_def isAlnum_def isDigit_def between_def isWhiteSpace_def)
  have ne: "?s \<noteq> []" by simp
  have f: "filter (\<lambda>c. \<not> isWhiteSpace c) ?s = js ''abc''"
    by (simp add: isWhiteSpace_def)
  note th = cleanBase64_normalizes [OF h]
  have c1: "cleanBase64 ?s = js ''abc''"
    using conjunct1 [OF th] f by simp
  have c2: "list_all isBase64Char (cleanBase64 ?s)"
    by (rule conjunct1 [OF conjunct2 [OF th]])
  note ex = mp [OF conjunct1 [OF conjunct2 [OF conjunct2 [OF th]]] ne]
  from ex obtain n where n: "n < 4"
    and srv: "cleanBase64_server ?s =
      Some (filter (\<lambda>c. \<not> isWhiteSpace c) ?s @ replicate n (of_char CHR ''=''))"
    and len: "length (filter (\<lambda>c. \<not> isWhiteSpace c) ?s @ replicate n (of_char CHR ''='')) mod 4 = 0"
    by (elim exE conjE)
  from len have "(3 + n) mod 4 = 0" unfolding f by simp
  with n have "n = 1" by presburger
  with srv have c3: "cleanBase64_server ?s = Some (js ''abc='')"
    unfolding f by simp
  show ?thesis
    by (intro conjI h ne c1 c2 c3)
qed

text \<open>
  The claim as the specification states it has every normalised proof reach a length
  that is a multiple of 4, by padding. The hooks' function does not pad: it returns
  \<open>abc\<close>, of length 3, for the input \<open>abc\<close>. The backend's function has no string to
  return for the empty input.
\<close>

theorem cleanBase64_padding_counterexample:
  "list_all (\<lambda>c. isBase64Char c \<or> isWhiteSpace c) (js ''abc'')
   \<and> cleanBase64 (js ''abc'') = js ''abc''
   \<and> length (cleanBase64 (js ''abc'')) mod 4 = 3
   \<and> cleanBase64_server [] = None"
proof -
  have a: "list_all (\<lambda>c. isBase64Char c \<or> isWhiteSpace c) (js ''abc'')"
    by (simp add: isBase64Char_def isAlnum_def isDigit_def between_def)
  have b: "cleanBase64 (js ''abc'') = js ''abc''"
    by (simp add: cleanBase64_def trim_def isBase64Char_def isAlnum_def isDigit_def between_def
        isWhiteSpace_def)
  have c: "length (cleanBase64 (js ''abc'')) mod 4 = 3"
    unfolding b by simp
  have d: "cleanBase64_server [] = None"
    by (simp add: cleanBase64_server_def)
  show ?thesis
    by (intro conjI a b c d)
qed

subsection \<open>Substrings\<close>

lemma startsWith_iff: "startsWith s p \<longleftrightarrow> (\<exists>b. s = p @ b)"
proof
  assume "startsWith s p"
  then have "s = p @ drop (length p) s"
    unfolding startsWith_def by (metis append_take_drop_id)
  then show "\<exists>b. s = p @ b" ..
next
  assume "\<exists>b. s = p @ b"
  then show "startsWith s p" by (auto simp: startsWith_def)
qed

lemma str_includes_iff: "str_includes s p \<longleftrightarrow> (\<exists>a b. s = a @ p @ b)"
proof (induction s)
  case Nil
  then show ?case by auto
next
  case (Cons c cs)
  show ?case
  proof
    assume "str_includes (c # cs) p"
    then consider "startsWith (c # cs) p" | "str_includes cs p" by auto
    then show "\<exists>a b. c # cs = a @ p @ b"
    proof cases
      case 1
      then obtain b where "c # cs = p @ b" using startsWith_iff by blast
      then have "c # cs = [] @ p @ b" by simp
      then show ?thesis by blast
    next
      case 2
      then obtain a b where "cs = a @ p @ b" using Cons.IH by blast
      then have "c # cs = (c # a) @ p @ b" by simp
      then show ?thesis by blast
    qed
  next
    assume "\<exists>a b. c # cs = a @ p @ b"
    then obtain a b where ab: "c # cs = a @ p @ b" by blast
    show "str_includes (c # cs) p"
    proof (cases a)
      case Nil
      with ab have "startsWith (c # cs) p" using startsWith_iff by auto
      then show ?thesis by simp
    next
      case (Cons x a')
      with ab have "cs = a' @ p @ b" by simp
      then have "str_includes cs p" using Cons.IH by blast
      then show ?thesis by simp
    qed
  qed
qed

lemma str_includes_appendI:
  "str_includes s p \<Longrightarrow> str_includes (a @ s @ b) p"
proof -
  assume "str_includes s p"
  then obtain x y where "s = x @ p @ y" using str_includes_iff by blast
  then have "a @ s @ b = (a @ x) @ p @ (y @ b)" by simp
  then show ?thesis using str_includes_iff by blast
qed

lemma str_includes_self: "str_includes p p"
  using str_includes_iff [of p p] by (metis append_Nil append_Nil2)

lemma str_includes_join:
  "x \<in> set xs \<Longrightarrow> str_includes (join sep xs) x"
proof (induction sep xs rule: join.induct)
  case (1 sep)
  then show ?case by simp
next
  case (2 sep y)
  then show ?case by (simp add: str_includes_self)
next
  case (3 sep y z zs)
  show ?case
  proof (cases "x = y")
    case True
    have "str_includes ([] @ y @ (sep @ join sep (z # zs))) y"
      by (rule str_includes_appendI [OF str_includes_self])
    with True show ?thesis by simp
  next
    case False
    with 3 have "str_includes (join sep (z # zs)) x" by simp
    then have "str_includes ((y @ sep) @ join sep (z # zs) @ []) x"
      by (rule str_includes_appendI)
    then show ?thesis by simp
  qed
qed

subsection \<open>The delegation bootstrap\<close>

lemma missing_iff:
  "m \<in> set (missingCapabilities caps) \<longleftrightarrow>
     m \<in> set requiredCapabilities \<and> (\<forall>c\<in>set caps. \<not> capabilityIncludes c m)"
  by (auto simp: missingCapabilities_def list_ex_iff)

lemma missingCapabilitiesMessage_names:
  "m \<in> set missing \<Longrightarrow> str_includes (missingCapabilitiesMessage missing) m"
  unfolding missingCapabilitiesMessage_def
  by (intro str_includes_appendI str_includes_join)

lemma missingCapabilitiesMessage_nonempty: "missingCapabilitiesMessage missing \<noteq> []"
  by (simp add: missingCapabilitiesMessage_def)

text \<open>The steps of a run that reaches the capability check and finds a capability missing.\<close>

lemma delegationSteps_missing:
  assumes "100 \<le> length (cleanBase64 (d_proof config))"
    and "startsWith (trim (d_key config)) (js ''Mg'')"
    and "Signer_parse k (trim (d_key config)) = Inr signer"
    and "createClient k signer = Inr c"
    and "Proof_parse k (cleanBase64 (d_proof config)) = Inr pp"
    and "missingCapabilities (capabilitiesOf pp) \<noteq> []"
  shows "delegationSteps k config =
     (Inl (Error (missingCapabilitiesMessage (missingCapabilities (capabilitiesOf pp)))),
      [CallSignerParse, CallCreateClient, CallProofParse])"
proof -
  have p: "cleanBase64 (d_proof config) \<noteq> []" "\<not> length (cleanBase64 (d_proof config)) < 100"
    using assms(1) by auto
  have q: "trim (d_key config) \<noteq> []"
    using assms(2) by (auto simp: startsWith_def)
  show ?thesis
    unfolding delegationSteps_def Let_def
    using p q assms(2-6) by (simp del: list.map)
qed

lemma messageOr_Error: "m \<noteq> [] \<Longrightarrow> messageOr (Error m) fallback = m"
  by (simp add: messageOr_def)

text \<open>
  C1, as the code has it. The hooks do not look for a required capability among the
  entries of the list: they look for its text inside the entries, with \<open>includes\<close>, in a
  string entry and in the JSON text of any other entry. So take a bootstrap call that
  gets as far as a parsed proof (the cleaned proof has at least 100 characters, the
  trimmed key starts with \<open>Mg\<close>, and the SDK parses the key, creates the client and
  parses the proof), and a required capability \<open>r\<close> whose text occurs in no entry of the
  capability list. Then \<open>loginWithDelegation\<close>
  returns a failure and \<open>setupDelegation\<close> returns \<open>false\<close>, both with the error message
  \<open>Delegation proof missing required capabilities: \<dots>\<close>, which names \<open>r\<close> and every other
  required capability that is missing; the only SDK calls made are the two parses and the
  creation of the client, so neither \<open>addSpace\<close> nor \<open>setCurrentSpace\<close> is invoked; and the
  session, in the hook's state and in local storage, is what it was.
\<close>

theorem delegation_missing_capability:
  assumes "100 \<le> length (cleanBase64 (d_proof config))"
    and "startsWith (trim (d_key config)) (js ''Mg'')"
    and "Signer_parse k (trim (d_key config)) = Inr signer"
    and "createClient k signer = Inr c"
    and "Proof_parse k (cleanBase64 (d_proof config)) = Inr pp"
    and "r \<in> set requiredCapabilities"
    and "\<forall>cap\<in>set (capabilitiesOf pp). \<not> capabilityIncludes cap r"
  shows "(\<exists>details. fst (loginWithDelegation k config st) =
            LoginFailure (missingCapabilitiesMessage (missingCapabilities (capabilitiesOf pp))) details)
       \<and> fst (setupDelegation k config dst) = False
       \<and> h_error (snd (loginWithDelegation k config st)) =
            Some (missingCapabilitiesMessage (missingCapabilities (capabilitiesOf pp)))
       \<and> dm_error (snd (setupDelegation k config dst)) =
            Some (missingCapabilitiesMessage (missingCapabilities (capabilitiesOf pp)))
       \<and> str_includes (missingCapabilitiesMessage (missingCapabilities (capabilitiesOf pp))) r
       \<and> (\<forall>m\<in>set requiredCapabilities.
            (\<forall>cap\<in>set (capabilitiesOf pp). \<not> capabilityIncludes cap m) \<longrightarrow>
            str_includes (missingCapabilitiesMessage (missingCapabilities (capabilitiesOf pp))) m)
       \<and> h_calls (snd (loginWithDelegation k config st)) =
            h_calls st @ [CallSignerParse, CallCreateClient, CallProofParse]
       \<and> dm_calls (snd (setupDelegation k config dst)) =
            dm_calls dst @ [CallSignerParse, CallCreateClient, CallProofParse]
       \<and> ls_session (snd (loginWithDelegation k config st)) = ls_session st
       \<and> h_userSession (snd (loginWithDelegation k config st)) = h_userSession st
       \<and> dm_ls_session (snd (setupDelegation k config dst)) = dm_ls_session dst
       \<and> dm_userSession (snd (setupDelegation k config dst)) = dm_userSession dst"
proof -
  let ?missing = "missingCapabilities (capabilitiesOf pp)"
  let ?msg = "missingCapabilitiesMessage ?missing"
  have r: "r \<in> set ?missing"
    using assms(6,7) by (simp add: missing_iff)
  then have ne: "?missing \<noteq> []" by auto
  have steps: "delegationSteps k config =
      (Inl (Error ?msg), [CallSignerParse, CallCreateClient, CallProofParse])"
    by (rule delegationSteps_missing [OF assms(1-5) ne])
  have msg: "messageOr (Error ?msg) fallback = ?msg" for fallback
    by (rule messageOr_Error [OF missingCapabilitiesMessage_nonempty])
  have login_eq: "loginWithDelegation k config st =
      (LoginFailure ?msg (errorToString (Error ?msg)),
       st\<lparr> h_isInitializing := False, h_error := Some ?msg, h_isConnected := False,
           h_calls := h_calls st @ [CallSignerParse, CallCreateClient, CallProofParse] \<rparr>)"
    unfolding loginWithDelegation_def steps Let_def by (simp add: msg)
  have setup_eq: "setupDelegation k config dst =
      (False,
       dst\<lparr> dm_isInitializing := False, dm_error := Some ?msg,
            dm_calls := dm_calls dst @ [CallSignerParse, CallCreateClient, CallProofParse] \<rparr>)"
    unfolding setupDelegation_def steps Let_def by (simp add: msg)
  have names: "\<forall>m\<in>set requiredCapabilities.
      (\<forall>cap\<in>set (capabilitiesOf pp). \<not> capabilityIncludes cap m) \<longrightarrow> str_includes ?msg m"
    using missingCapabilitiesMessage_names missing_iff by blast
  have rn: "str_includes ?msg r"
    using r by (rule missingCapabilitiesMessage_names)
  show ?thesis
    unfolding login_eq setup_eq using names rn by simp
qed

subsection \<open>Sample runs of the bootstrap\<close>

text \<open>
  An SDK in which every call returns: the proof parses to the given capability list and
  \<open>addSpace\<close> leaves the client with the given namespaces.
\<close>

definition sample_sdk :: "capability list option \<Rightarrow> space list \<Rightarrow> sdk" where
  "sample_sdk caps spaces =
     \<lparr> Signer_parse = (\<lambda>key. Inr (js ''did:key:z6MkAgent'')),
       createClient = (\<lambda>signer. Inr \<lparr> c_agentDid = Some signer, c_spaces = [],
                                         c_currentSpace = None \<rparr>),
       Proof_parse = (\<lambda>proof. Inr \<lparr> capabilities = caps \<rparr>),
       addSpace = (\<lambda>client proof. Inr (client\<lparr> c_spaces := spaces \<rparr>)),
       setCurrentSpace = (\<lambda>client did. Inr (client\<lparr> c_currentSpace := Some did \<rparr>)) \<rparr>"

definition sample_config :: "jsstring option \<Rightarrow> delegation_config" where
  "sample_config requested =
     \<lparr> d_key = js '' MgCaXe0 '', d_proof = replicate 120 (of_char CHR ''A''),
       d_spaceDid = requested \<rparr>"

definition fresh_state :: hook_state where
  "fresh_state =
     \<lparr> h_client = None, h_space = None, h_isInitializing = False, h_uploadedFiles = [],
       h_error = None, h_isConnected = False, h_userSession = emptySession,
       h_uploadProgress = Map.empty, h_abortControllers = {}, ls_session = None,
       ls_uploads = None, h_calls = [] \<rparr>"

definition fresh_demo_state :: demo_state where
  "fresh_demo_state =
     \<lparr> dm_client = None, dm_space = None, dm_spaceDid = None, dm_isInitializing = False,
       dm_isUploading = False, dm_error = None, dm_userSession = emptySession,
       dm_ls_session = None, dm_calls = [] \<rparr>"

lemma sample_config_clean:
  "cleanBase64 (d_proof (sample_config requested)) = replicate 120 (of_char CHR ''A'')"
  "trim (d_key (sample_config requested)) = js ''MgCaXe0''"
proof -
  have a: "isBase64Char (of_char CHR ''A'')"
    by (simp add: isBase64Char_def isAlnum_def between_def)
  show "cleanBase64 (d_proof (sample_config requested)) = replicate 120 (of_char CHR ''A'')"
    unfolding cleanBase64_filter sample_config_def using a by (simp del: of_char_Char)
  show "trim (d_key (sample_config requested)) = js ''MgCaXe0''"
    by (simp add: sample_config_def trim_def isWhiteSpace_def)
qed

lemma sample_reach:
  "100 \<le> length (cleanBase64 (d_proof (sample_config requested)))"
  "startsWith (trim (d_key (sample_config requested))) (js ''Mg'')"
  "Signer_parse (sample_sdk caps spaces) (trim (d_key (sample_config requested))) =
     Inr (js ''did:key:z6MkAgent'')"
  "createClient (sample_sdk caps spaces) (js ''did:key:z6MkAgent'') =
     Inr \<lparr> c_agentDid = Some (js ''did:key:z6MkAgent''), c_spaces = [], c_currentSpace = None \<rparr>"
  "Proof_parse (sample_sdk caps spaces) (cleanBase64 (d_proof (sample_config requested))) =
     Inr \<lparr> capabilities = caps \<rparr>"
  unfolding sample_config_clean
  by (simp_all add: sample_sdk_def startsWith_def)

text \<open>
  The theorem on a proof that grants \<open>space/blob/add\<close> and \<open>space/index/add\<close> only:
  \<open>upload/add\<close> is named, three SDK calls are made, nothing is stored.
\<close>

theorem delegation_missing_capability_witness:
  "100 \<le> length (cleanBase64 (d_proof (sample_config None)))
   \<and> startsWith (trim (d_key (sample_config None))) (js ''Mg'')
   \<and> Signer_parse
         (sample_sdk (Some [CapObject (js ''{\"can\":\"space/blob/add\",\"with\":\"did:key:z6MkSpace\"}''),
                            CapString (js ''space/index/add'')]) [])
         (trim (d_key (sample_config None))) = Inr (js ''did:key:z6MkAgent'')
   \<and> createClient
         (sample_sdk (Some [CapObject (js ''{\"can\":\"space/blob/add\",\"with\":\"did:key:z6MkSpace\"}''),
                            CapString (js ''space/index/add'')]) [])
         (js ''did:key:z6MkAgent'') =
       Inr \<lparr> c_agentDid = Some (js ''did:key:z6MkAgent''), c_spaces = [], c_currentSpace = None \<rparr>
   \<and> Proof_parse
         (sample_sdk (Some [CapObject (js ''{\"can\":\"space/blob/add\",\"with\":\"did:key:z6MkSpace\"}''),
                            CapString (js ''space/index/add'')]) [])
         (cleanBase64 (d_proof (sample_config None))) =
       Inr \<lparr> capabilities =
               Some [CapObject (js ''{\"can\":\"space/blob/add\",\"with\":\"did:key:z6MkSpace\"}''),
                     CapString (js ''space/index/add'')] \<rparr>
   \<and> js ''upload/add'' \<in> set requiredCapabilities
   \<and> list_all (\<lambda>cap. \<not> capabilityIncludes cap (js ''upload/add''))
         [CapObject (js ''{\"can\":\"space/blob/add\",\"with\":\"did:key:z6MkSpace\"}''),
          CapString (js ''space/index/add'')]
   \<and> (\<exists>details.
         fst (loginWithDelegation
               (sample_sdk (Some [CapObject (js ''{\"can\":\"space/blob/add\",\"with\":\"did:key:z6MkSpace\"}''),
                                  CapString (js ''space/index/add'')]) [])
               (sample_config None) fresh_state) =
         LoginFailure
           (js ''Delegation proof missing required capabilities: upload/add. Please regenerate with proper permissions.'')
           details)
   \<and> fst (setupDelegation
         (sample_sdk (Some [CapObject (js ''{\"can\":\"space/blob/add\",\"with\":\"did:key:z6MkSpace\"}''),
                            CapString (js ''space/index/add'')]) [])
         (sample_config None) fresh_demo_state) = False
   \<and> h_calls (snd (loginWithDelegation
         (sample_sdk (Some [CapObject (js ''{\"can\":\"space/blob/add\",\"with\":\"did:key:z6MkSpace\"}''),
                            CapString (js ''space/index/add'')]) [])
         (sample_config None) fresh_state)) = [CallSignerParse, CallCreateClient, CallProofParse]
   \<and> ls_session (snd (loginWithDelegation
         (sample_sdk (Some [CapObject (js ''{\"can\":\"space/blob/add\",\"with\":\"did:key:z6MkSpace\"}''),
                            CapString (js ''space/index/add'')]) [])
         (sample_config None) fresh_state)) = None"
proof -
  let ?caps = "[CapObject (js ''{\"can\":\"space/blob/add\",\"with\":\"did:key:z6MkSpace\"}''),
                CapString (js ''space/index/add'')]"
  let ?k = "sample_sdk (Some ?caps) []"
  let ?pp = "\<lparr> capabilities = Some ?caps \<rparr>"
  let ?msg = "js ''Delegation proof missing required capabilities: upload/add. Please regenerate with proper permissions.''"
  note h = sample_reach(1) [of None] sample_reach(2) [of None]
    sample_reach(3) [of "Some ?caps" "[]" None] sample_reach(4) [of "Some ?caps" "[]"]
    sample_reach(5) [of "Some ?caps" "[]" None]
  have h6: "js ''upload/add'' \<in> set requiredCapabilities"
    by (simp add: requiredCapabilities_def)
  have h7: "list_all (\<lambda>cap. \<not> capabilityIncludes cap (js ''upload/add'')) ?caps"
    by (simp add: startsWith_def)
  have h7': "\<forall>cap\<in>set (capabilitiesOf ?pp). \<not> capabilityIncludes cap (js ''upload/add'')"
    using h7 by (simp add: capabilitiesOf_def list_all_iff)
  note th = delegation_missing_capability [OF h h6 h7', of fresh_state fresh_demo_state]
  have miss: "missingCapabilities (capabilitiesOf ?pp) = [js ''upload/add'']"
    by (simp add: missingCapabilities_def capabilitiesOf_def requiredCapabilities_def
        startsWith_def)
  have m: "missingCapabilitiesMessage (missingCapabilities (capabilitiesOf ?pp)) = ?msg"
    unfolding miss by (simp add: missingCapabilitiesMessage_def)
  have c1: "\<exists>details. fst (loginWithDelegation ?k (sample_config None) fresh_state) =
      LoginFailure ?msg details"
    using conjunct1 [OF th] unfolding m .
  have c2: "fst (setupDelegation ?k (sample_config None) fresh_demo_state) = False"
    by (rule conjunct1 [OF conjunct2 [OF th]])
  have "h_calls (snd (loginWithDelegation ?k (sample_config None) fresh_state)) =
      h_calls fresh_state @ [CallSignerParse, CallCreateClient, CallProofParse]"
    using th by (elim conjE)
  then have c3: "h_calls (snd (loginWithDelegation ?k (sample_config None) fresh_state)) =
      [CallSignerParse, CallCreateClient, CallProofParse]"
    by (simp add: fresh_state_def)
  have "ls_session (snd (loginWithDelegation ?k (sample_config None) fresh_state)) =
      ls_session fresh_state"
    using th by (elim conjE)
  then have c4: "ls_session (snd (loginWithDelegation ?k (sample_config None) fresh_state)) = None"
    by (simp add: fresh_state_def)
  show ?thesis
    by (intro conjI h h6 h7 c1 c2 c3 c4)
qed

subsection \<open>Choosing the namespace\<close>

lemma selectSpace_None_iff: "selectSpace requested spaces = None \<longleftrightarrow> spaces = []"
  by (auto simp: selectSpace_def Let_def find_None_iff split: option.splits list.splits)

lemma selectSpace_fallback:
  assumes "requested \<notin> sp_did ` set spaces"
  shows "selectSpace (Some requested) spaces = (case spaces of [] \<Rightarrow> None | s # rest \<Rightarrow> Some s)"
proof -
  have "find (\<lambda>s. sp_did s = requested) spaces = None"
    using assms by (auto simp: find_None_iff)
  then show ?thesis
    by (simp add: selectSpace_def Let_def)
qed

text \<open>The steps of a run that gets through the capability check and \<open>addSpace\<close>.\<close>

lemma delegationSteps_select:
  assumes "100 \<le> length (cleanBase64 (d_proof config))"
    and "startsWith (trim (d_key config)) (js ''Mg'')"
    and "Signer_parse k (trim (d_key config)) = Inr signer"
    and "createClient k signer = Inr c"
    and "Proof_parse k (cleanBase64 (d_proof config)) = Inr pp"
    and "missingCapabilities (capabilitiesOf pp) = []"
    and "addSpace k c pp = Inr c1"
  shows "delegationSteps k config =
     (case selectSpace (d_spaceDid config) (c_spaces c1) of
        None \<Rightarrow>
          (Inl (Error noSpaceMessage),
           [CallSignerParse, CallCreateClient, CallProofParse, CallAddSpace, CallSpaces])
      | Some currentSpace \<Rightarrow>
          (case setCurrentSpace k c1 (sp_did currentSpace) of
             Inl e \<Rightarrow>
               (Inl e,
                [CallSignerParse, CallCreateClient, CallProofParse, CallAddSpace, CallSpaces,
                 CallSetCurrentSpace (sp_did currentSpace)])
           | Inr client2 \<Rightarrow>
               (Inr (\<lparr> s_email = js ''delegation@user'', s_isLoggedIn = True,
                       s_method = Some Delegation, s_spaceDid = Some (sp_did currentSpace),
                       s_agentDid = c_agentDid client2 \<rparr>,
                     client2, currentSpace),
                [CallSignerParse, CallCreateClient, CallProofParse, CallAddSpace, CallSpaces,
                 CallSetCurrentSpace (sp_did currentSpace)])))"
proof -
  have p: "cleanBase64 (d_proof config) \<noteq> []" "\<not> length (cleanBase64 (d_proof config)) < 100"
    using assms(1) by auto
  have q: "trim (d_key config) \<noteq> []"
    using assms(2) by (auto simp: startsWith_def)
  show ?thesis
    unfolding delegationSteps_def Let_def
    using p q assms(2-7) by (simp del: list.map)
qed

lemma noSpaceMessage_nonempty: "noSpaceMessage \<noteq> []"
  by (simp add: noSpaceMessage_def)

text \<open>
  C6. Take a bootstrap call that gets through the capability check and \<open>addSpace\<close>, with
  a \<open>requestedSpaceId\<close> that is the DID of none of the enumerated namespaces. If no
  namespace is enumerated, both hooks fail with the \<open>No space available\<close> message, having
  made no call of \<open>setCurrentSpace\<close>. If at least one is enumerated, the first one is
  selected and \<open>setCurrentSpace\<close> is called with its DID; where that SDK call returns, the
  login succeeds with a session for that namespace, which is persisted. The selection
  itself comes out empty only when no namespace is enumerated.
\<close>

theorem delegation_space_fallback:
  assumes "100 \<le> length (cleanBase64 (d_proof config))"
    and "startsWith (trim (d_key config)) (js ''Mg'')"
    and "Signer_parse k (trim (d_key config)) = Inr signer"
    and "createClient k signer = Inr c"
    and "Proof_parse k (cleanBase64 (d_proof config)) = Inr pp"
    and "missingCapabilities (capabilitiesOf pp) = []"
    and "addSpace k c pp = Inr c1"
    and "d_spaceDid config = Some requested"
    and "requested \<notin> sp_did ` set (c_spaces c1)"
  shows "(c_spaces c1 = [] \<longrightarrow>
           (\<exists>details. fst (loginWithDelegation k config st) = LoginFailure noSpaceMessage details)
           \<and> fst (setupDelegation k config dst) = False
           \<and> dm_error (snd (setupDelegation k config dst)) = Some noSpaceMessage
           \<and> h_calls (snd (loginWithDelegation k config st)) =
                h_calls st @ [CallSignerParse, CallCreateClient, CallProofParse, CallAddSpace,
                              CallSpaces]
           \<and> dm_calls (snd (setupDelegation k config dst)) =
                dm_calls dst @ [CallSignerParse, CallCreateClient, CallProofParse, CallAddSpace,
                                CallSpaces])
       \<and> (\<forall>sp rest c2.
             c_spaces c1 = sp # rest \<and> setCurrentSpace k c1 (sp_did sp) = Inr c2 \<longrightarrow>
             (\<exists>session.
                 fst (loginWithDelegation k config st) = LoginSuccess session
                 \<and> s_spaceDid session = Some (sp_did sp)
                 \<and> s_method session = Some Delegation
                 \<and> s_isLoggedIn session
                 \<and> h_userSession (snd (loginWithDelegation k config st)) = session
                 \<and> ls_session (snd (loginWithDelegation k config st)) = Some (Json session)
                 \<and> dm_userSession (snd (setupDelegation k config dst)) = session
                 \<and> dm_ls_session (snd (setupDelegation k config dst)) = Some (Json session))
             \<and> h_space (snd (loginWithDelegation k config st)) = Some sp
             \<and> h_client (snd (loginWithDelegation k config st)) = Some c2
             \<and> h_calls (snd (loginWithDelegation k config st)) =
                  h_calls st @ [CallSignerParse, CallCreateClient, CallProofParse, CallAddSpace,
                                CallSpaces, CallSetCurrentSpace (sp_did sp)]
             \<and> fst (setupDelegation k config dst) = True
             \<and> dm_space (snd (setupDelegation k config dst)) = Some sp
             \<and> dm_spaceDid (snd (setupDelegation k config dst)) = Some (sp_did sp)
             \<and> dm_calls (snd (setupDelegation k config dst)) =
                  dm_calls dst @ [CallSignerParse, CallCreateClient, CallProofParse, CallAddSpace,
                                  CallSpaces, CallSetCurrentSpace (sp_did sp)])
       \<and> (\<forall>req spaces. (selectSpace req spaces = None) = (spaces = []))"
proof (intro conjI impI allI)
  note steps = delegationSteps_select [OF assms(1-7)]
  note sel = selectSpace_fallback [OF assms(9)]
  have msg: "messageOr (Error noSpaceMessage) fallback = noSpaceMessage" for fallback
    by (simp add: messageOr_def noSpaceMessage_nonempty)
  {
    assume e: "c_spaces c1 = []"
    have sel0: "selectSpace (d_spaceDid config) (c_spaces c1) = None"
      using sel e assms(8) by simp
    have s0: "delegationSteps k config =
        (Inl (Error noSpaceMessage),
         [CallSignerParse, CallCreateClient, CallProofParse, CallAddSpace, CallSpaces])"
      unfolding steps sel0 by simp
    show "\<exists>details. fst (loginWithDelegation k config st) = LoginFailure noSpaceMessage details"
      unfolding loginWithDelegation_def s0 Let_def by (simp add: msg)
    show "fst (setupDelegation k config dst) = False"
      unfolding setupDelegation_def s0 Let_def by simp
    show "dm_error (snd (setupDelegation k config dst)) = Some noSpaceMessage"
      unfolding setupDelegation_def s0 Let_def by (simp add: msg)
    show "h_calls (snd (loginWithDelegation k config st)) =
        h_calls st @ [CallSignerParse, CallCreateClient, CallProofParse, CallAddSpace, CallSpaces]"
      unfolding loginWithDelegation_def s0 Let_def by simp
    show "dm_calls (snd (setupDelegation k config dst)) =
        dm_calls dst @ [CallSignerParse, CallCreateClient, CallProofParse, CallAddSpace, CallSpaces]"
      unfolding setupDelegation_def s0 Let_def by simp
  }
  {
    fix sp rest c2
    assume a: "c_spaces c1 = sp # rest \<and> setCurrentSpace k c1 (sp_did sp) = Inr c2"
    let ?session = "\<lparr> s_email = js ''delegation@user'', s_isLoggedIn = True,
        s_method = Some Delegation, s_spaceDid = Some (sp_did sp), s_agentDid = c_agentDid c2 \<rparr>"
    have sel1: "selectSpace (d_spaceDid config) (c_spaces c1) = Some sp"
      using sel a assms(8) by simp
    have s1: "delegationSteps k config =
        (Inr (?session, c2, sp),
         [CallSignerParse, CallCreateClient, CallProofParse, CallAddSpace, CallSpaces,
          CallSetCurrentSpace (sp_did sp)])"
      unfolding steps sel1 using a by (simp del: list.map)
    have l: "loginWithDelegation k config st =
        (LoginSuccess ?session,
         st\<lparr> h_isInitializing := False, h_error := None, ls_session := Some (Json ?session),
             h_userSession := ?session, h_client := Some c2, h_space := Some sp,
             h_isConnected := True,
             h_calls := h_calls st @ [CallSignerParse, CallCreateClient, CallProofParse,
               CallAddSpace, CallSpaces, CallSetCurrentSpace (sp_did sp)] \<rparr>)"
      unfolding loginWithDelegation_def s1 Let_def by (simp add: saveSession_def del: list.map)
    have d: "setupDelegation k config dst =
        (True,
         dst\<lparr> dm_isInitializing := False, dm_error := None, dm_ls_session := Some (Json ?session),
              dm_userSession := ?session, dm_client := Some c2, dm_space := Some sp,
              dm_spaceDid := Some (sp_did sp),
              dm_calls := dm_calls dst @ [CallSignerParse, CallCreateClient, CallProofParse,
                CallAddSpace, CallSpaces, CallSetCurrentSpace (sp_did sp)] \<rparr>)"
      unfolding setupDelegation_def s1 Let_def by (simp add: dm_saveSession_def del: list.map)
    show "\<exists>session.
        fst (loginWithDelegation k config st) = LoginSuccess session
        \<and> s_spaceDid session = Some (sp_did sp)
        \<and> s_method session = Some Delegation
        \<and> s_isLoggedIn session
        \<and> h_userSession (snd (loginWithDelegation k config st)) = session
        \<and> ls_session (snd (loginWithDelegation k config st)) = Some (Json session)
        \<and> dm_userSession (snd (setupDelegation k config dst)) = session
        \<and> dm_ls_session (snd (setupDelegation k config dst)) = Some (Json session)"
      unfolding l d by (intro exI [of _ ?session]) simp
    show "h_space (snd (loginWithDelegation k config st)) = Some sp"
      unfolding l by simp
    show "h_client (snd (loginWithDelegation k config st)) = Some c2"
      unfolding l by simp
    show "h_calls (snd (loginWithDelegation k config st)) =
        h_calls st @ [CallSignerParse, CallCreateClient, CallProofParse, CallAddSpace,
                      CallSpaces, CallSetCurrentSpace (sp_did sp)]"
      unfolding l by simp
    show "fst (setupDelegation k config dst) = True"
      unfolding d by simp
    show "dm_space (snd (setupDelegation k config dst)) = Some sp"
      unfolding d by simp
    show "dm_spaceDid (snd (setupDelegation k config dst)) = Some (sp_did sp)"
      unfolding d by simp
    show "dm_calls (snd (setupDelegation k config dst)) =
        dm_calls dst @ [CallSignerParse, CallCreateClient, CallProofParse, CallAddSpace,
                        CallSpaces, CallSetCurrentSpace (sp_did sp)]"
      unfolding d by simp
  }
  show "(selectSpace req spaces = None) = (spaces = [])" for req spaces
    by (rule selectSpace_None_iff)
qed

definition all_capabilities :: "capability list" where
  "all_capabilities =
     [CapString (js ''space/blob/add''), CapString (js ''space/index/add''),
      CapString (js ''upload/add'')]"

definition two_spaces :: "space list" where
  "two_spaces =
     [\<lparr> sp_did = js ''did:key:z6MkSpaceA'', sp_name = js ''first'' \<rparr>,
      \<lparr> sp_did = js ''did:key:z6MkSpaceB'', sp_name = js ''second'' \<rparr>]"

lemma all_capabilities_none_missing:
  "missingCapabilities (capabilitiesOf \<lparr> capabilities = Some all_capabilities \<rparr>) = []"
  by (simp add: missingCapabilities_def capabilitiesOf_def requiredCapabilities_def
      all_capabilities_def startsWith_def)

text \<open>
  The theorem on a request for \<open>did:key:z6MkOther\<close> when the client knows the namespaces
  \<open>did:key:z6MkSpaceA\<close> and \<open>did:key:z6MkSpaceB\<close>: the first is activated.
\<close>

theorem delegation_space_fallback_witness:
  "100 \<le> length (cleanBase64 (d_proof (sample_config (Some (js ''did:key:z6MkOther'')))))
   \<and> startsWith (trim (d_key (sample_config (Some (js ''did:key:z6MkOther''))))) (js ''Mg'')
   \<and> Signer_parse (sample_sdk (Some all_capabilities) two_spaces)
         (trim (d_key (sample_config (Some (js ''did:key:z6MkOther''))))) =
       Inr (js ''did:key:z6MkAgent'')
   \<and> createClient (sample_sdk (Some all_capabilities) two_spaces) (js ''did:key:z6MkAgent'') =
       Inr \<lparr> c_agentDid = Some (js ''did:key:z6MkAgent''), c_spaces = [], c_currentSpace = None \<rparr>
   \<and> Proof_parse (sample_sdk (Some all_capabilities) two_spaces)
         (cleanBase64 (d_proof (sample_config (Some (js ''did:key:z6MkOther''))))) =
       Inr \<lparr> capabilities = Some all_capabilities \<rparr>
   \<and> missingCapabilities (capabilitiesOf \<lparr> capabilities = Some all_capabilities \<rparr>) = []
   \<and> addSpace (sample_sdk (Some all_capabilities) two_spaces)
         \<lparr> c_agentDid = Some (js ''did:key:z6MkAgent''), c_spaces = [], c_currentSpace = None \<rparr>
         \<lparr> capabilities = Some all_capabilities \<rparr> =
       Inr \<lparr> c_agentDid = Some (js ''did:key:z6MkAgent''), c_spaces = two_spaces,
             c_currentSpace = None \<rparr>
   \<and> d_spaceDid (sample_config (Some (js ''did:key:z6MkOther''))) = Some (js ''did:key:z6MkOther'')
   \<and> js ''did:key:z6MkOther'' \<notin> sp_did ` set two_spaces
   \<and> two_spaces = hd two_spaces # tl two_spaces
   \<and> setCurrentSpace (sample_sdk (Some all_capabilities) two_spaces)
         \<lparr> c_agentDid = Some (js ''did:key:z6MkAgent''), c_spaces = two_spaces,
           c_currentSpace = None \<rparr> (js ''did:key:z6MkSpaceA'') =
       Inr \<lparr> c_agentDid = Some (js ''did:key:z6MkAgent''), c_spaces = two_spaces,
             c_currentSpace = Some (js ''did:key:z6MkSpaceA'') \<rparr>
   \<and> (\<exists>session.
         fst (loginWithDelegation (sample_sdk (Some all_capabilities) two_spaces)
               (sample_config (Some (js ''did:key:z6MkOther''))) fresh_state) = LoginSuccess session
         \<and> s_spaceDid session = Some (js ''did:key:z6MkSpaceA''))
   \<and> h_space (snd (loginWithDelegation (sample_sdk (Some all_capabilities) two_spaces)
         (sample_config (Some (js ''did:key:z6MkOther''))) fresh_state)) = Some (hd two_spaces)
   \<and> h_calls (snd (loginWithDelegation (sample_sdk (Some all_capabilities) two_spaces)
         (sample_config (Some (js ''did:key:z6MkOther''))) fresh_state)) =
       [CallSignerParse, CallCreateClient, CallProofParse, CallAddSpace, CallSpaces,
        CallSetCurrentSpace (js ''did:key:z6MkSpaceA'')]
   \<and> fst (setupDelegation (sample_sdk (Some all_capabilities) two_spaces)
         (sample_config (Some (js ''did:key:z6MkOther''))) fresh_demo_state) = True"
proof -
  let ?req = "js ''did:key:z6MkOther''"
  let ?k = "sample_sdk (Some all_capabilities) two_spaces"
  let ?cfg = "sample_config (Some ?req)"
  let ?c = "\<lparr> c_agentDid = Some (js ''did:key:z6MkAgent''), c_spaces = [], c_currentSpace = None \<rparr>"
  let ?c1 = "\<lparr> c_agentDid = Some (js ''did:key:z6MkAgent''), c_spaces = two_spaces,
               c_currentSpace = None \<rparr>"
  let ?c2 = "\<lparr> c_agentDid = Some (js ''did:key:z6MkAgent''), c_spaces = two_spaces,
               c_currentSpace = Some (js ''did:key:z6MkSpaceA'') \<rparr>"
  let ?pp = "\<lparr> capabilities = Some all_capabilities \<rparr>"
  note h = sample_reach(1) [of "Some ?req"] sample_reach(2) [of "Some ?req"]
    sample_reach(3) [of "Some all_capabilities" two_spaces "Some ?req"]
    sample_reach(4) [of "Some all_capabilities" two_spaces]
    sample_reach(5) [of "Some all_capabilities" two_spaces "Some ?req"]
  note h6 = all_capabilities_none_missing
  have h7: "addSpace ?k ?c ?pp = Inr ?c1"
    by (simp add: sample_sdk_def)
  have h8: "d_spaceDid ?cfg = Some ?req"
    by (simp add: sample_config_def)
  have h9: "?req \<notin> sp_did ` set two_spaces"
    by (simp add: two_spaces_def)
  have h9': "?req \<notin> sp_did ` set (c_spaces ?c1)"
    using h9 by simp
  have did: "sp_did (hd two_spaces) = js ''did:key:z6MkSpaceA''"
    by (simp add: two_spaces_def)
  have e1: "two_spaces = hd two_spaces # tl two_spaces"
    by (simp add: two_spaces_def)
  have e2: "setCurrentSpace ?k ?c1 (js ''did:key:z6MkSpaceA'') = Inr ?c2"
    by (simp add: sample_sdk_def)
  have e: "c_spaces ?c1 = hd two_spaces # tl two_spaces
      \<and> setCurrentSpace ?k ?c1 (sp_did (hd two_spaces)) = Inr ?c2"
    unfolding did using e1 e2 by simp
  note th = delegation_space_fallback [OF h h6 h7 h8 h9', of fresh_state fresh_demo_state]
  note second = conjunct1 [OF conjunct2 [OF th]]
  note inst = second [rule_format, OF e]
  from conjunct1 [OF inst] obtain session where
    s: "fst (loginWithDelegation ?k ?cfg fresh_state) = LoginSuccess session"
      "s_spaceDid session = Some (sp_did (hd two_spaces))"
    by (elim exE conjE)
  have c1: "\<exists>session. fst (loginWithDelegation ?k ?cfg fresh_state) = LoginSuccess session
      \<and> s_spaceDid session = Some (js ''did:key:z6MkSpaceA'')"
    using s unfolding did by (intro exI [of _ session] conjI)
  have c2: "h_space (snd (loginWithDelegation ?k ?cfg fresh_state)) = Some (hd two_spaces)"
    using inst by (elim conjE)
  have "h_calls (snd (loginWithDelegation ?k ?cfg fresh_state)) =
      h_calls fresh_state @ [CallSignerParse, CallCreateClient, CallProofParse, CallAddSpace,
        CallSpaces, CallSetCurrentSpace (sp_did (hd two_spaces))]"
    using inst by (elim conjE)
  then have c3: "h_calls (snd (loginWithDelegation ?k ?cfg fresh_state)) =
      [CallSignerParse, CallCreateClient, CallProofParse, CallAddSpace, CallSpaces,
       CallSetCurrentSpace (js ''did:key:z6MkSpaceA'')]"
    unfolding did by (simp add: fresh_state_def)
  have c4: "fst (setupDelegation ?k ?cfg fresh_demo_state) = True"
    using inst by (elim conjE)
  show ?thesis
    by (intro conjI h h6 h7 h8 h9 e1 e2 c1 c2 c3 c4)
qed

subsection \<open>A capability that is only mentioned\<close>

text \<open>
  A capability list without \<open>upload/add\<close> in which another entry carries that text:
  the test of the hooks is \<open>includes\<close>, and \<open>upload/add-preview\<close> passes it. The
  bootstrap then succeeds: \<open>addSpace\<close> and \<open>setCurrentSpace\<close> are called and the session
  is stored, in both hooks.
\<close>

definition near_capabilities :: "capability list" where
  "near_capabilities =
     [CapString (js ''space/blob/add''), CapString (js ''space/index/add''),
      CapString (js ''upload/add-preview'')]"

definition sample_session :: user_session where
  "sample_session =
     \<lparr> s_email = js ''delegation@user'', s_isLoggedIn = True, s_method = Some Delegation,
       s_spaceDid = Some (js ''did:key:z6MkSpaceA''),
       s_agentDid = Some (js ''did:key:z6MkAgent'') \<rparr>"

theorem delegation_capability_mentioned_counterexample:
  "CapString (js ''upload/add'') \<notin> set near_capabilities
   \<and> fst (loginWithDelegation (sample_sdk (Some near_capabilities) two_spaces)
           (sample_config None) fresh_state) = LoginSuccess sample_session
   \<and> h_calls (snd (loginWithDelegation (sample_sdk (Some near_capabilities) two_spaces)
           (sample_config None) fresh_state)) =
       [CallSignerParse, CallCreateClient, CallProofParse, CallAddSpace, CallSpaces,
        CallSetCurrentSpace (js ''did:key:z6MkSpaceA'')]
   \<and> ls_session fresh_state = None
   \<and> ls_session (snd (loginWithDelegation (sample_sdk (Some near_capabilities) two_spaces)
           (sample_config None) fresh_state)) = Some (Json sample_session)
   \<and> fst (setupDelegation (sample_sdk (Some near_capabilities) two_spaces)
           (sample_config None) fresh_demo_state) = True
   \<and> dm_calls (snd (setupDelegation (sample_sdk (Some near_capabilities) two_spaces)
           (sample_config None) fresh_demo_state)) =
       [CallSignerParse, CallCreateClient, CallProofParse, CallAddSpace, CallSpaces,
        CallSetCurrentSpace (js ''did:key:z6MkSpaceA'')]"
proof -
  let ?k = "sample_sdk (Some near_capabilities) two_spaces"
  let ?cfg = "sample_config None"
  let ?c = "\<lparr> c_agentDid = Some (js ''did:key:z6MkAgent''), c_spaces = [], c_currentSpace = None \<rparr>"
  let ?c1 = "\<lparr> c_agentDid = Some (js ''did:key:z6MkAgent''), c_spaces = two_spaces,
               c_currentSpace = None \<rparr>"
  let ?c2 = "\<lparr> c_agentDid = Some (js ''did:key:z6MkAgent''), c_spaces = two_spaces,
               c_currentSpace = Some (js ''did:key:z6MkSpaceA'') \<rparr>"
  let ?pp = "\<lparr> capabilities = Some near_capabilities \<rparr>"
  let ?calls = "[CallSignerParse, CallCreateClient, CallProofParse, CallAddSpace, CallSpaces,
      CallSetCurrentSpace (js ''did:key:z6MkSpaceA'')]"
  note h = sample_reach(1) [of None] sample_reach(2) [of None]
    sample_reach(3) [of "Some near_capabilities" two_spaces None]
    sample_reach(4) [of "Some near_capabilities" two_spaces]
    sample_reach(5) [of "Some near_capabilities" two_spaces None]
  have lacks: "CapString (js ''upload/add'') \<notin> set near_capabilities"
    by (simp add: near_capabilities_def)
  have none_missing: "missingCapabilities (capabilitiesOf ?pp) = []"
    by (simp add: missingCapabilities_def capabilitiesOf_def requiredCapabilities_def
        near_capabilities_def startsWith_def)
  have add: "addSpace ?k ?c ?pp = Inr ?c1"
    by (simp add: sample_sdk_def)
  have sel: "selectSpace (d_spaceDid ?cfg) (c_spaces ?c1) = Some (hd two_spaces)"
    by (simp add: selectSpace_def sample_config_def two_spaces_def)
  have did: "sp_did (hd two_spaces) = js ''did:key:z6MkSpaceA''"
    by (simp add: two_spaces_def)
  have act: "setCurrentSpace ?k ?c1 (js ''did:key:z6MkSpaceA'') = Inr ?c2"
    by (simp add: sample_sdk_def)
  have steps: "delegationSteps ?k ?cfg = (Inr (sample_session, ?c2, hd two_spaces), ?calls)"
    unfolding delegationSteps_select [OF h none_missing add] sel
    by (simp add: did act sample_session_def del: list.map)
  have l: "loginWithDelegation ?k ?cfg fresh_state =
      (LoginSuccess sample_session,
       fresh_state\<lparr> h_isInitializing := False, h_error := None,
         ls_session := Some (Json sample_session), h_userSession := sample_session,
         h_client := Some ?c2, h_space := Some (hd two_spaces), h_isConnected := True,
         h_calls := ?calls \<rparr>)"
    unfolding loginWithDelegation_def steps Let_def
    by (simp add: saveSession_def fresh_state_def del: list.map)
  have d: "setupDelegation ?k ?cfg fresh_demo_state =
      (True,
       fresh_demo_state\<lparr> dm_isInitializing := False, dm_error := None,
         dm_ls_session := Some (Json sample_session), dm_userSession := sample_session,
         dm_client := Some ?c2, dm_space := Some (hd two_spaces),
         dm_spaceDid := Some (js ''did:key:z6MkSpaceA''), dm_calls := ?calls \<rparr>)"
    unfolding setupDelegation_def steps Let_def
    by (simp add: dm_saveSession_def fresh_demo_state_def did del: list.map)
  have c1: "fst (loginWithDelegation ?k ?cfg fresh_state) = LoginSuccess sample_session"
    unfolding l by simp
  have c2: "h_calls (snd (loginWithDelegation ?k ?cfg fresh_state)) = ?calls"
    unfolding l by simp
  have c3: "ls_session fresh_state = None"
    by (simp add: fresh_state_def)
  have c4: "ls_session (snd (loginWithDelegation ?k ?cfg fresh_state)) = Some (Json sample_session)"
    unfolding l by simp
  have c5: "fst (setupDelegation ?k ?cfg fresh_demo_state) = True"
    unfolding d by simp
  have c6: "dm_calls (snd (setupDelegation ?k ?cfg fresh_demo_state)) = ?calls"
    unfolding d by simp
  show ?thesis
    by (intro conjI lacks c1 c2 c3 c4 c5 c6)
qed

subsection \<open>Loading the session\<close>

lemma initialUserSession_absent: "initialUserSession None = Inr emptySession"
  by (simp add: initialUserSession_def)

lemma initialUserSession_stored: "initialUserSession (Some (Json s)) = Inr s"
  by (simp add: initialUserSession_def)

lemma initialUserSession_saved: "initialUserSession (ls_session (saveSession s st)) = Inr s"
  by (simp add: saveSession_def initialUserSession_stored)

lemma initialUserSession_empty_text: "initialUserSession (Some (Malformed [])) = Inr emptySession"
  by (simp add: initialUserSession_def)

lemma initialUserSession_malformed:
  "t \<noteq> [] \<Longrightarrow> initialUserSession (Some (Malformed t)) = Inl (SyntaxError (js ''Unexpected token''))"
  by (simp add: initialUserSession_def)

text \<open>
  C2. Loading returns the session last saved, and the empty session when nothing or the
  empty text is stored. On the stored text \<open>{not json\<close> the initialiser does not return
  the empty session: nothing catches the \<open>SyntaxError\<close> of \<open>JSON.parse\<close>, and the first
  render of the hook ends with it.
\<close>

theorem userSession_load_malformed:
  "initialUserSession None = Inr emptySession
   \<and> initialUserSession (ls_session (saveSession s st)) = Inr s
   \<and> initialUserSession (Some (Malformed [])) = Inr emptySession
   \<and> initialUserSession (Some (Malformed (js ''{not json''))) =
       Inl (SyntaxError (js ''Unexpected token''))
   \<and> useStoracha_init (Some (Malformed (js ''{not json''))) None =
       Inl (SyntaxError (js ''Unexpected token''))"
proof (intro conjI)
  show "initialUserSession None = Inr emptySession"
    by (rule initialUserSession_absent)
  show "initialUserSession (ls_session (saveSession s st)) = Inr s"
    by (rule initialUserSession_saved)
  show "initialUserSession (Some (Malformed [])) = Inr emptySession"
    by (rule initialUserSession_empty_text)
  show m: "initialUserSession (Some (Malformed (js ''{not json''))) =
      Inl (SyntaxError (js ''Unexpected token''))"
    by (rule initialUserSession_malformed) simp
  show "useStoracha_init (Some (Malformed (js ''{not json''))) None =
      Inl (SyntaxError (js ''Unexpected token''))"
    unfolding useStoracha_init_def m by (simp add: initialUploadedFiles_def)
qed

subsection \<open>Uploading a file\<close>

lemma patchProgress_fields [simp]:
  "h_uploadedFiles (patchProgress fid change st) = h_uploadedFiles st"
  "h_abortControllers (patchProgress fid change st) = h_abortControllers st"
  "ls_uploads (patchProgress fid change st) = ls_uploads st"
  "ls_session (patchProgress fid change st) = ls_session st"
  by (simp_all add: patchProgress_def split: option.splits)

lemma progressTick_fields [simp]:
  "h_uploadedFiles (progressTick scaled fid n st) = h_uploadedFiles st"
  "h_abortControllers (progressTick scaled fid n st) = h_abortControllers st"
  by (simp_all add: progressTick_def split: option.splits)

lemma progressTicks_fields [simp]:
  "h_uploadedFiles ((progressTick scaled fid n ^^ k) st) = h_uploadedFiles st"
  "h_abortControllers ((progressTick scaled fid n ^^ k) st) = h_abortControllers st"
  by (induction k) simp_all

lemma startUpload_fields [simp]:
  "h_uploadedFiles (startUpload now f st) = h_uploadedFiles st"
  by (simp add: startUpload_def)

lemma thumbnail_includes_width:
  "str_includes (g @ js ''?img-width=300&img-height=300&img-fit=cover'') (js ''img-width=300'')"
proof -
  have "g @ js ''?img-width=300&img-height=300&img-fit=cover'' =
      (g @ js ''?'') @ js ''img-width=300'' @ js ''&img-height=300&img-fit=cover''"
    by simp
  then show ?thesis
    unfolding str_includes_iff by blast
qed

text \<open>What a successful upload returns and how it leaves the upload history.\<close>

lemma uploadFile_success:
  assumes "h_client st = Some c" and "h_space st = Some sp"
    and "upload_outcome env = Inr cidString"
  shows "\<exists>r. fst (uploadFile env f description st) =
           \<lparr> r_cid = cidString, r_url = u_gatewayUrl r, r_success = True, r_error = None,
             r_file = Some r \<rparr>
       \<and> r = \<lparr> u_id = cidString @ js ''-'' @ toString (now_id env), u_name = f_name f,
               u_type = f_type f, u_size = f_size f, u_cid = cidString,
               u_uploadedAt = now_uploadedAt env,
               u_gatewayUrl = js ''https://'' @ cidString @ js ''.ipfs.'' @ DEFAULT_GATEWAY,
               u_thumbnailUrl =
                 Some (if startsWith (f_type f) (js ''image/'')
                       then js ''https://'' @ cidString @ js ''.ipfs.'' @ DEFAULT_GATEWAY
                            @ js ''?img-width=300&img-height=300&img-fit=cover''
                       else js ''https://'' @ cidString @ js ''.ipfs.'' @ DEFAULT_GATEWAY),
               u_description = description \<rparr>
       \<and> h_uploadedFiles (snd (uploadFile env f description st)) = r # h_uploadedFiles st
       \<and> ls_uploads (snd (uploadFile env f description st)) = Some (Json (r # h_uploadedFiles st))"
  using assms
  by (simp add: uploadFile_def Let_def saveUploads_def del: list.map)

text \<open>
  C8. A successful upload of a file with an image MIME type, into an empty upload
  history, returns a record with the file's size and type, the gateway URL of the CID,
  and that URL with the resize query as thumbnail URL, which is not empty and contains
  \<open>img-width=300\<close>; afterwards the history, in the hook and in local storage, is the list
  of this one record.
\<close>

theorem uploadFile_image:
  assumes "h_client st = Some c" and "h_space st = Some sp"
    and "upload_outcome env = Inr cidString"
    and "startsWith (f_type f) (js ''image/'')"
    and "h_uploadedFiles st = []"
  shows "\<exists>r. r_success (fst (uploadFile env f description st))
       \<and> r_file (fst (uploadFile env f description st)) = Some r
       \<and> u_size r = f_size f
       \<and> startsWith (u_type r) (js ''image/'')
       \<and> u_gatewayUrl r = js ''https://'' @ cidString @ js ''.ipfs.storacha.link''
       \<and> u_thumbnailUrl r =
            Some (u_gatewayUrl r @ js ''?img-width=300&img-height=300&img-fit=cover'')
       \<and> (\<exists>t. u_thumbnailUrl r = Some t \<and> t \<noteq> [] \<and> str_includes t (js ''img-width=300''))
       \<and> h_uploadedFiles (snd (uploadFile env f description st)) = [r]
       \<and> ls_uploads (snd (uploadFile env f description st)) = Some (Json [r])
       \<and> length (h_uploadedFiles (snd (uploadFile env f description st))) = 1"
proof -
  from uploadFile_success [OF assms(1-3), of f description]
  obtain r where res: "fst (uploadFile env f description st) =
        \<lparr> r_cid = cidString, r_url = u_gatewayUrl r, r_success = True, r_error = None,
          r_file = Some r \<rparr>"
    and r: "r = \<lparr> u_id = cidString @ js ''-'' @ toString (now_id env), u_name = f_name f,
               u_type = f_type f, u_size = f_size f, u_cid = cidString,
               u_uploadedAt = now_uploadedAt env,
               u_gatewayUrl = js ''https://'' @ cidString @ js ''.ipfs.'' @ DEFAULT_GATEWAY,
               u_thumbnailUrl =
                 Some (if startsWith (f_type f) (js ''image/'')
                       then js ''https://'' @ cidString @ js ''.ipfs.'' @ DEFAULT_GATEWAY
                            @ js ''?img-width=300&img-height=300&img-fit=cover''
                       else js ''https://'' @ cidString @ js ''.ipfs.'' @ DEFAULT_GATEWAY),
               u_description = description \<rparr>"
    and files: "h_uploadedFiles (snd (uploadFile env f description st)) = r # h_uploadedFiles st"
    and stored: "ls_uploads (snd (uploadFile env f description st)) =
        Some (Json (r # h_uploadedFiles st))"
    by (elim exE conjE)
  have size: "u_size r = f_size f" and type: "u_type r = f_type f"
    by (simp_all add: r)
  have gw: "u_gatewayUrl r = js ''https://'' @ cidString @ js ''.ipfs.storacha.link''"
    by (simp add: r DEFAULT_GATEWAY_def)
  have gw': "u_gatewayUrl r = js ''https://'' @ cidString @ js ''.ipfs.'' @ DEFAULT_GATEWAY"
    by (simp add: r)
  have th: "u_thumbnailUrl r =
      Some (u_gatewayUrl r @ js ''?img-width=300&img-height=300&img-fit=cover'')"
    unfolding gw' using assms(4) by (simp add: r del: list.map)
  have inc: "str_includes (u_gatewayUrl r @ js ''?img-width=300&img-height=300&img-fit=cover'')
      (js ''img-width=300'')"
    by (rule thumbnail_includes_width)
  have ne: "u_gatewayUrl r @ js ''?img-width=300&img-height=300&img-fit=cover'' \<noteq> []"
    by simp
  have ex: "\<exists>t. u_thumbnailUrl r = Some t \<and> t \<noteq> [] \<and> str_includes t (js ''img-width=300'')"
    by (intro exI [of _ "u_gatewayUrl r @ js ''?img-width=300&img-height=300&img-fit=cover''"]
        conjI th ne inc)
  have a: "r_success (fst (uploadFile env f description st))" by (simp add: res)
  have b: "r_file (fst (uploadFile env f description st)) = Some r" by (simp add: res)
  have ty: "startsWith (u_type r) (js ''image/'')" unfolding type by (rule assms(4))
  have f1: "h_uploadedFiles (snd (uploadFile env f description st)) = [r]"
    unfolding files assms(5) ..
  have f2: "ls_uploads (snd (uploadFile env f description st)) = Some (Json [r])"
    unfolding stored assms(5) ..
  have f3: "length (h_uploadedFiles (snd (uploadFile env f description st))) = 1"
    unfolding f1 by simp
  show ?thesis
    by (intro exI [of _ r] conjI a b size ty gw th ex f1 f2 f3)
qed

definition sample_image :: js_file where
  "sample_image = \<lparr> f_name = js ''photo.png'', f_size = 2097152, f_type = js ''image/png'' \<rparr>"

definition sample_upload_env :: upload_env where
  "sample_upload_env =
     \<lparr> now_start = 1700000000000, timer_ticks = 3,
       floor_scaled = (\<lambda>progress size_bytes. (progress * size_bytes) div 100),
       upload_outcome = Inr (js ''bafybeigdyrzt5sfp7udm7hu76uh7y26nf3efuylqabf3oclgtqy55fbzdi''),
       now_id = 1700000004000, now_uploadedAt = 1700000004001 \<rparr>"

definition logged_in_state :: hook_state where
  "logged_in_state =
     fresh_state\<lparr> h_client := Some \<lparr> c_agentDid = Some (js ''did:key:z6MkAgent''),
                                      c_spaces = two_spaces,
                                      c_currentSpace = Some (js ''did:key:z6MkSpaceA'') \<rparr>,
                  h_space := Some (hd two_spaces), h_isConnected := True \<rparr>"

text \<open>The theorem on a 2 MB PNG file, uploaded from a hook whose history is empty.\<close>

theorem uploadFile_image_witness:
  "h_client logged_in_state =
     Some \<lparr> c_agentDid = Some (js ''did:key:z6MkAgent''), c_spaces = two_spaces,
            c_currentSpace = Some (js ''did:key:z6MkSpaceA'') \<rparr>
   \<and> h_space logged_in_state = Some (hd two_spaces)
   \<and> upload_outcome sample_upload_env =
       Inr (js ''bafybeigdyrzt5sfp7udm7hu76uh7y26nf3efuylqabf3oclgtqy55fbzdi'')
   \<and> startsWith (f_type sample_image) (js ''image/'')
   \<and> h_uploadedFiles logged_in_state = []
   \<and> (\<exists>r. r_success (fst (uploadFile sample_upload_env sample_image None logged_in_state))
        \<and> r_file (fst (uploadFile sample_upload_env sample_image None logged_in_state)) = Some r
        \<and> u_size r = 2097152
        \<and> startsWith (u_type r) (js ''image/'')
        \<and> u_thumbnailUrl r =
             Some (js ''https://bafybeigdyrzt5sfp7udm7hu76uh7y26nf3efuylqabf3oclgtqy55fbzdi.ipfs.storacha.link?img-width=300&img-height=300&img-fit=cover'')
        \<and> h_uploadedFiles (snd (uploadFile sample_upload_env sample_image None logged_in_state)) = [r]
        \<and> ls_uploads (snd (uploadFile sample_upload_env sample_image None logged_in_state)) =
             Some (Json [r]))"
proof -
  let ?cid = "js ''bafybeigdyrzt5sfp7udm7hu76uh7y26nf3efuylqabf3oclgtqy55fbzdi''"
  have h1: "h_client logged_in_state =
      Some \<lparr> c_agentDid = Some (js ''did:key:z6MkAgent''), c_spaces = two_spaces,
             c_currentSpace = Some (js ''did:key:z6MkSpaceA'') \<rparr>"
    by (simp add: logged_in_state_def fresh_state_def)
  have h2: "h_space logged_in_state = Some (hd two_spaces)"
    by (simp add: logged_in_state_def fresh_state_def)
  have h3: "upload_outcome sample_upload_env = Inr ?cid"
    by (simp add: sample_upload_env_def)
  have h4: "startsWith (f_type sample_image) (js ''image/'')"
    by (simp add: sample_image_def startsWith_def)
  have h5: "h_uploadedFiles logged_in_state = []"
    by (simp add: logged_in_state_def fresh_state_def)
  from uploadFile_image [OF h1 h2 h3 h4 h5, of None]
  obtain r where a: "r_success (fst (uploadFile sample_upload_env sample_image None logged_in_state))"
    and b: "r_file (fst (uploadFile sample_upload_env sample_image None logged_in_state)) = Some r"
    and sz: "u_size r = f_size sample_image"
    and ty: "startsWith (u_type r) (js ''image/'')"
    and gw: "u_gatewayUrl r = js ''https://'' @ ?cid @ js ''.ipfs.storacha.link''"
    and th: "u_thumbnailUrl r =
        Some (u_gatewayUrl r @ js ''?img-width=300&img-height=300&img-fit=cover'')"
    and f1: "h_uploadedFiles (snd (uploadFile sample_upload_env sample_image None logged_in_state)) = [r]"
    and f2: "ls_uploads (snd (uploadFile sample_upload_env sample_image None logged_in_state)) =
        Some (Json [r])"
    by (elim exE conjE)
  have sz': "u_size r = 2097152"
    unfolding sz by (simp add: sample_image_def)
  have th': "u_thumbnailUrl r =
      Some (js ''https://bafybeigdyrzt5sfp7udm7hu76uh7y26nf3efuylqabf3oclgtqy55fbzdi.ipfs.storacha.link?img-width=300&img-height=300&img-fit=cover'')"
    unfolding th gw by simp
  have ex: "\<exists>r. r_success (fst (uploadFile sample_upload_env sample_image None logged_in_state))
        \<and> r_file (fst (uploadFile sample_upload_env sample_image None logged_in_state)) = Some r
        \<and> u_size r = 2097152
        \<and> startsWith (u_type r) (js ''image/'')
        \<and> u_thumbnailUrl r =
             Some (js ''https://bafybeigdyrzt5sfp7udm7hu76uh7y26nf3efuylqabf3oclgtqy55fbzdi.ipfs.storacha.link?img-width=300&img-height=300&img-fit=cover'')
        \<and> h_uploadedFiles (snd (uploadFile sample_upload_env sample_image None logged_in_state)) = [r]
        \<and> ls_uploads (snd (uploadFile sample_upload_env sample_image None logged_in_state)) =
             Some (Json [r])"
    by (intro exI [of _ r] conjI a b sz' ty th' f1 f2)
  show ?thesis
    by (intro conjI h1 h2 h3 h4 h5 ex)
qed

subsection \<open>The ids of uploads\<close>

lemma digit_unit: "d < 10 \<Longrightarrow> unat (of_nat (48 + d) :: jschar) = 48 + d"
  by (simp add: unat_of_nat del: of_nat_add)

lemma digit_isDigit: "d < 10 \<Longrightarrow> isDigit (of_nat (48 + d))"
  by (simp add: isDigit_def between_def word_le_nat_alt digit_unit del: of_nat_add)

lemma toString_digits: "\<forall>c\<in>set (toString n). isDigit c"
proof (induction n rule: toString.induct)
  case (1 n)
  show ?case
  proof (cases "n < 10")
    case True
    then show ?thesis
      by (subst toString.simps) (simp add: digit_isDigit del: of_nat_add)
  next
    case False
    have "n mod 10 < 10" by simp
    then have "isDigit (of_nat (48 + n mod 10))" by (rule digit_isDigit)
    with False "1.IH" show ?thesis
      by (subst toString.simps) (simp del: of_nat_add)
  qed
qed

lemma dash_not_digit: "\<not> isDigit (of_char CHR ''-'')"
  by (simp add: isDigit_def between_def)

lemma dash_not_in_toString: "of_char CHR ''-'' \<notin> set (toString n)"
  using toString_digits dash_not_digit by blast

text \<open>Reading a decimal text back.\<close>

definition fromDigits :: "jsstring \<Rightarrow> nat" where
  "fromDigits s = foldl (\<lambda>acc c. 10 * acc + (unat c - 48)) 0 s"

lemma fromDigits_toString: "fromDigits (toString n) = n"
proof (induction n rule: toString.induct)
  case (1 n)
  show ?case
  proof (cases "n < 10")
    case True
    then show ?thesis
      by (subst toString.simps) (simp add: fromDigits_def digit_unit del: of_nat_add)
  next
    case False
    have d: "unat (of_nat (48 + n mod 10) :: jschar) = 48 + n mod 10"
      by (rule digit_unit) simp
    have "fromDigits (toString n) =
        fromDigits (toString (n div 10) @ [of_nat (48 + n mod 10)])"
      using False by (subst toString.simps) simp
    also have "\<dots> = 10 * fromDigits (toString (n div 10)) + n mod 10"
      by (simp add: fromDigits_def d del: of_nat_add)
    also have "\<dots> = n"
      using False "1.IH" by simp
    finally show ?thesis .
  qed
qed

lemma toString_inject: "toString a = toString b \<Longrightarrow> a = b"
  by (metis fromDigits_toString)

lemma split_at_separator:
  assumes "xs @ d # x = ys @ d # y" and "d \<notin> set xs" and "d \<notin> set ys"
  shows "xs = ys \<and> x = y"
  using assms
proof (induction xs arbitrary: ys)
  case Nil
  then show ?case by (cases ys) auto
next
  case (Cons a xs)
  then show ?case by (cases ys) auto
qed

lemma fileId_inject:
  "fileId t1 n1 = fileId t2 n2 \<longleftrightarrow> t1 = t2 \<and> n1 = n2"
proof
  assume "fileId t1 n1 = fileId t2 n2"
  then have "toString t1 @ of_char CHR ''-'' # n1 = toString t2 @ of_char CHR ''-'' # n2"
    by (simp add: fileId_def del: of_char_Char)
  then have "toString t1 = toString t2 \<and> n1 = n2"
    by (rule split_at_separator) (rule dash_not_in_toString)+
  then show "t1 = t2 \<and> n1 = n2"
    using toString_inject by blast
next
  assume "t1 = t2 \<and> n1 = n2"
  then show "fileId t1 n1 = fileId t2 n2" by simp
qed

text \<open>The progress entry that \<open>uploadFile\<close> creates when a call starts.\<close>

definition pendingEntry :: "nat \<Rightarrow> js_file \<Rightarrow> upload_progress" where
  "pendingEntry now f =
     \<lparr> p_fileId = fileId now (f_name f), p_fileName = f_name f, p_progress = 0,
       p_status = Pending, p_bytesUploaded = 0, p_totalBytes = f_size f \<rparr>"

lemma startUpload_progress:
  "h_uploadProgress (startUpload now f st) =
     (h_uploadProgress st)(fileId now (f_name f) \<mapsto> pendingEntry now f)"
  by (simp add: startUpload_def pendingEntry_def)

text \<open>
  C5, as the code has it. The id of an upload is the decimal text of the millisecond
  clock at its start, a dash, and the file name. Two uploads get the same id exactly
  when they start in the same millisecond with the same file name. When their ids
  differ, both progress entries are in the map after the two starts; when their ids
  agree, the second entry has replaced the first.
\<close>

theorem upload_ids_distinct:
  "(fileId t1 (f_name f1) = fileId t2 (f_name f2)) = (t1 = t2 \<and> f_name f1 = f_name f2)
   \<and> (t1 \<noteq> t2 \<or> f_name f1 \<noteq> f_name f2 \<longrightarrow>
        h_uploadProgress (startUpload t2 f2 (startUpload t1 f1 st)) (fileId t1 (f_name f1)) =
          Some (pendingEntry t1 f1)
        \<and> h_uploadProgress (startUpload t2 f2 (startUpload t1 f1 st)) (fileId t2 (f_name f2)) =
          Some (pendingEntry t2 f2))
   \<and> (t1 = t2 \<and> f_name f1 = f_name f2 \<longrightarrow>
        h_uploadProgress (startUpload t2 f2 (startUpload t1 f1 st)) =
          (h_uploadProgress st)(fileId t2 (f_name f2) \<mapsto> pendingEntry t2 f2))"
proof (intro conjI impI)
  show "(fileId t1 (f_name f1) = fileId t2 (f_name f2)) = (t1 = t2 \<and> f_name f1 = f_name f2)"
    by (rule fileId_inject)
next
  assume "t1 \<noteq> t2 \<or> f_name f1 \<noteq> f_name f2"
  then have ne: "fileId t1 (f_name f1) \<noteq> fileId t2 (f_name f2)"
    by (simp add: fileId_inject)
  show "h_uploadProgress (startUpload t2 f2 (startUpload t1 f1 st)) (fileId t1 (f_name f1)) =
      Some (pendingEntry t1 f1)"
    using ne by (simp add: startUpload_progress)
  show "h_uploadProgress (startUpload t2 f2 (startUpload t1 f1 st)) (fileId t2 (f_name f2)) =
      Some (pendingEntry t2 f2)"
    by (simp add: startUpload_progress)
next
  assume "t1 = t2 \<and> f_name f1 = f_name f2"
  then show "h_uploadProgress (startUpload t2 f2 (startUpload t1 f1 st)) =
      (h_uploadProgress st)(fileId t2 (f_name f2) \<mapsto> pendingEntry t2 f2)"
    by (simp add: startUpload_progress)
qed

definition small_png :: js_file where
  "small_png = \<lparr> f_name = js ''a.png'', f_size = 10, f_type = js ''image/png'' \<rparr>"

definition large_png :: js_file where
  "large_png = \<lparr> f_name = js ''a.png'', f_size = 20, f_type = js ''image/png'' \<rparr>"

lemma sample_fileIds:
  "fileId 1700000000000 (js ''a.png'') = js ''1700000000000-a.png''"
  "fileId 1700000000001 (js ''a.png'') = js ''1700000000001-a.png''"
  by (simp_all add: fileId_def toString.simps)

text \<open>
  The theorem on two files named \<open>a.png\<close> whose uploads start one millisecond apart: each
  has its entry.
\<close>

theorem upload_ids_distinct_witness:
  "(1700000000000::nat) \<noteq> 1700000000001
   \<and> fileId 1700000000000 (f_name small_png) \<noteq> fileId 1700000000001 (f_name large_png)
   \<and> map_option p_totalBytes
        (h_uploadProgress
          (startUpload 1700000000001 large_png (startUpload 1700000000000 small_png fresh_state))
          (js ''1700000000000-a.png'')) = Some 10
   \<and> map_option p_totalBytes
        (h_uploadProgress
          (startUpload 1700000000001 large_png (startUpload 1700000000000 small_png fresh_state))
          (js ''1700000000001-a.png'')) = Some 20"
proof -
  let ?st = "startUpload 1700000000001 large_png (startUpload 1700000000000 small_png fresh_state)"
  have h: "(1700000000000::nat) \<noteq> 1700000000001" by simp
  then have h': "(1700000000000::nat) \<noteq> 1700000000001 \<or> f_name small_png \<noteq> f_name large_png"
    by (rule disjI1)
  note th = upload_ids_distinct [of 1700000000000 small_png 1700000000001 large_png fresh_state]
  have c0: "fileId 1700000000000 (f_name small_png) \<noteq> fileId 1700000000001 (f_name large_png)"
    using conjunct1 [OF th] h by simp
  note both = mp [OF conjunct1 [OF conjunct2 [OF th]] h']
  have n: "f_name small_png = js ''a.png''" "f_name large_png = js ''a.png''"
    by (simp_all add: small_png_def large_png_def)
  have c1: "map_option p_totalBytes (h_uploadProgress ?st (js ''1700000000000-a.png'')) = Some 10"
    using conjunct1 [OF both] unfolding n sample_fileIds
    by (simp add: pendingEntry_def small_png_def)
  have c2: "map_option p_totalBytes (h_uploadProgress ?st (js ''1700000000001-a.png'')) = Some 20"
    using conjunct2 [OF both] unfolding n sample_fileIds
    by (simp add: pendingEntry_def large_png_def)
  show ?thesis
    by (intro conjI h c0 c1 c2)
qed

text \<open>
  The claim as the specification states it has the ids of any two uploads pending at
  the same time distinct. Two uploads of files named \<open>a.png\<close> that start in the same
  millisecond get the same id, and the map then holds one entry, the second upload's.
\<close>

theorem upload_ids_collide_counterexample:
  "fileId 1700000000000 (f_name small_png) = js ''1700000000000-a.png''
   \<and> fileId 1700000000000 (f_name large_png) = js ''1700000000000-a.png''
   \<and> dom (h_uploadProgress
        (startUpload 1700000000000 large_png (startUpload 1700000000000 small_png fresh_state))) =
       {js ''1700000000000-a.png''}
   \<and> map_option p_totalBytes
        (h_uploadProgress
          (startUpload 1700000000000 large_png (startUpload 1700000000000 small_png fresh_state))
          (js ''1700000000000-a.png'')) = Some 20"
proof -
  have n: "f_name small_png = js ''a.png''" "f_name large_png = js ''a.png''"
    by (simp_all add: small_png_def large_png_def)
  have a: "fileId 1700000000000 (f_name small_png) = js ''1700000000000-a.png''"
    unfolding n by (rule sample_fileIds(1))
  have b: "fileId 1700000000000 (f_name large_png) = js ''1700000000000-a.png''"
    unfolding n by (rule sample_fileIds(1))
  have m: "h_uploadProgress
      (startUpload 1700000000000 large_png (startUpload 1700000000000 small_png fresh_state)) =
      [js ''1700000000000-a.png'' \<mapsto> pendingEntry 1700000000000 large_png]"
    unfolding startUpload_progress a b by (simp add: fresh_state_def)
  have c: "dom (h_uploadProgress
      (startUpload 1700000000000 large_png (startUpload 1700000000000 small_png fresh_state))) =
      {js ''1700000000000-a.png''}"
    unfolding m by simp
  have d: "map_option p_totalBytes
      (h_uploadProgress
        (startUpload 1700000000000 large_png (startUpload 1700000000000 small_png fresh_state))
        (js ''1700000000000-a.png'')) = Some 20"
    unfolding m by (simp add: pendingEntry_def large_png_def)
  show ?thesis
    by (intro conjI a b c d)
qed

end
